theory Spec2Isabelle
  imports Main
begin

text \<open>
  The action \<open>action-verified-commit\<close> (\<open>src/index.js\<close>) replicates a local git commit
  through the object API of the hosting service. Its functions are embedded here as
  functions of an environment, which answers the calls to git, to the file system and to
  the hosting API, and of the run context \<open>CONTEXT\<close>, which they pass on together with
  the log of the calls made. A rejected promise or a thrown value is the \<open>Inl\<close> of a
  sum. Logging (\<open>core.debug\<close>, \<open>core.info\<close>, \<open>console.info\<close>), \<open>core.setSecret\<close> and
  the two \<open>git.addConfig\<close> calls, whose promises the source drops, are left out.
\<close>

section \<open>JavaScript strings and arrays\<close>

text \<open>
  A JavaScript string is modelled as a \<^typ>\<open>string\<close>: one \<^typ>\<open>char\<close> per code unit, for
  code units below 256. \<open>undefined\<close> is \<^term>\<open>None\<close>: reading an array past its end and
  destructuring a short array both give \<open>undefined\<close>.
\<close>

text \<open>The characters that \<open>trimEnd\<close> removes and that the regular expression \<open>\s\<close>
  matches (white space and line terminators), among the code units below 256.\<close>

definition isWhiteSpace :: "char \<Rightarrow> bool" where
  "isWhiteSpace c =
     (c = CHR 0x09 \<or> c = CHR 0x0A \<or> c = CHR 0x0B \<or> c = CHR 0x0C \<or> c = CHR 0x0D
      \<or> c = CHR 0x20 \<or> c = CHR 0xA0)"

definition trimEnd :: "string \<Rightarrow> string" where
  "trimEnd s = rev (dropWhile isWhiteSpace (rev s))"

text \<open>\<open>s.split(sep)\<close> for a separator that matches exactly one character: a
  one-character string, or the regular expression \<open>/\s/\<close>. The result always has at
  least one element; the empty string gives \<open>['']\<close>.\<close>

fun split :: "(char \<Rightarrow> bool) \<Rightarrow> string \<Rightarrow> string list" where
  "split sep [] = [[]]"
| "split sep (c # cs) =
     (if sep c then [] # split sep cs
      else (case split sep cs of [] \<Rightarrow> [[c]] | w # ws \<Rightarrow> (c # w) # ws))"

text \<open>\<open>arr[i]\<close>\<close>

definition at :: "'a list \<Rightarrow> nat \<Rightarrow> 'a option" where
  "at arr i = (if i < length arr then Some (arr ! i) else None)"

text \<open>\<open>arr.slice(start, end)\<close> for non-negative bounds\<close>

definition slice :: "nat \<Rightarrow> nat \<Rightarrow> 'a list \<Rightarrow> 'a list" where
  "slice start stop arr = take (stop - start) (drop start arr)"

text \<open>\<open>s.replace(/\.git$/, '')\<close>: the pattern matches only at the end of the string.\<close>

definition replace_git_suffix :: "string \<Rightarrow> string" where
  "replace_git_suffix s =
     (if 4 \<le> length s \<and> drop (length s - 4) s = ''.git'' then take (length s - 4) s else s)"

text \<open>\<open>s.replace(pat, rep)\<close> for a string pattern: the first occurrence only.\<close>

fun replace :: "string \<Rightarrow> string \<Rightarrow> string \<Rightarrow> string" where
  "replace pat rep [] = (if pat = [] then rep else [])"
| "replace pat rep (c # cs) =
     (if take (length pat) (c # cs) = pat then rep @ drop (length pat) (c # cs)
      else c # replace pat rep cs)"

text \<open>\<open>arr.findIndex(p)\<close>: the index of the first element that satisfies \<open>p\<close>, or \<open>-1\<close>.\<close>

fun findIndex_from :: "('a \<Rightarrow> bool) \<Rightarrow> 'a list \<Rightarrow> int \<Rightarrow> int" where
  "findIndex_from p [] i = - 1"
| "findIndex_from p (x # xs) i = (if p x then i else findIndex_from p xs (i + 1))"

definition findIndex :: "('a \<Rightarrow> bool) \<Rightarrow> 'a list \<Rightarrow> int" where
  "findIndex p arr = findIndex_from p arr 0"

section \<open>Thrown values and promises\<close>

text \<open>
  What a \<open>catch\<close> receives: an instance of \<open>Error\<close> with its message, or an object
  that is not an instance of \<open>Error\<close>, with its \<open>message\<close> property.
\<close>

datatype thrown = Error string | NonError string

fun message :: "thrown \<Rightarrow> string" where
  "message (Error m) = m"
| "message (NonError m) = m"

fun instanceof_Error :: "thrown \<Rightarrow> bool" where
  "instanceof_Error (Error m) = True"
| "instanceof_Error (NonError m) = False"

fun set_message :: "thrown \<Rightarrow> string \<Rightarrow> thrown" where
  "set_message (Error m) m' = Error m'"
| "set_message (NonError m) m' = NonError m'"

text \<open>
  A promise is the time at which it settles and its outcome: \<open>Inl\<close> a rejection,
  \<open>Inr\<close> the value. \<open>await p\<close> is \<^term>\<open>snd p\<close>.
\<close>

type_synonym 'a promise = "nat \<times> (thrown + 'a)"

text \<open>The rejection that settles first; of two that settle together, the one earlier
  in the array.\<close>

fun firstRejection :: "'a promise list \<Rightarrow> (nat \<times> thrown) option" where
  "firstRejection [] = None"
| "firstRejection ((t, Inr v) # ps) = firstRejection ps"
| "firstRejection ((t, Inl e) # ps) =
     (case firstRejection ps of
        None \<Rightarrow> Some (t, e)
      | Some (t', e') \<Rightarrow> if t' < t then Some (t', e') else Some (t, e))"

fun fulfilled :: "'a promise list \<Rightarrow> 'a list" where
  "fulfilled [] = []"
| "fulfilled ((t, Inr v) # ps) = v # fulfilled ps"
| "fulfilled ((t, Inl e) # ps) = fulfilled ps"

text \<open>\<open>Promise.all(ps)\<close>: rejects with the first rejection, otherwise all the values.\<close>

definition Promise_all :: "'a promise list \<Rightarrow> thrown + 'a list" where
  "Promise_all ps =
     (case firstRejection ps of Some (t, e) \<Rightarrow> Inl e | None \<Rightarrow> Inr (fulfilled ps))"

section \<open>The collaborators and the run context\<close>

record tree_entry =
  mode :: "string option"
  type :: "string option"
  sha :: "string option"
  path :: "string option"

text \<open>The calls of a run after its check of the working tree: the local git commands,
  the file reads and the five calls of the hosting API.\<close>

datatype call =
    GitAddCommit string string
  | GitRaw "string list"
  | ReadFile string
  | CreateRef "string option" "string option" string string
  | CreateBlob "string option" "string option" string string
  | CreateTree "string option" "string option" "tree_entry list"
  | CreateCommit "string option" "string option" string "string list" string
  | UpdateRef "string option" "string option" string string bool

text \<open>
  The arguments of the hosting-API calls are in the order of the source's object
  literals: \<open>CreateRef owner repo sha ref\<close>, \<open>CreateBlob owner repo content encoding\<close>,
  \<open>CreateTree owner repo tree\<close>, \<open>CreateCommit owner repo message parents tree\<close>,
  \<open>UpdateRef owner repo ref sha force\<close>.
\<close>

fun isRemote :: "call \<Rightarrow> bool" where
  "isRemote (GitAddCommit a m) = False"
| "isRemote (GitRaw args) = False"
| "isRemote (ReadFile f) = False"
| "isRemote c = True"

text \<open>
  The environment of one run:
  \<^item> \<open>core_getInput name required\<close> is \<open>core.getInput(name, { required })\<close>, which
    throws when a required input is missing;
  \<^item> \<open>path_resolve\<close> and \<open>path_join\<close> are \<open>path.resolve\<close> and \<open>path.join\<close>;
  \<^item> \<open>git_revparse\<close>, \<open>git_remote\<close> and \<open>git_status_isClean\<close> are the awaited results of
    \<open>git.revparse\<close>, \<open>git.remote\<close> and \<open>git.status().isClean()\<close>;
  \<^item> \<open>git_add_commit\<close> is \<open>git.add(pattern).commit(message)\<close>, with the \<open>commit\<close> field of
    its result; \<open>git_raw\<close> is \<open>git.raw\<close>;
  \<^item> \<open>fs_readFile_base64 f\<close> is the content of the file \<open>f\<close> as
    \<open>fs.promises.readFile\<close> and \<open>toString('base64')\<close> give it;
  \<^item> \<open>octokit n c\<close> is the promise the hosting API returns to the call \<open>c\<close>, issued
    when \<open>n\<close> calls had been logged (its value is \<open>data.sha\<close> of the response);
  \<^item> \<open>remote_heads\<close> is the commit each branch of the remote repository points to when
    the run starts; the program has no call that reads it.
\<close>

record env =
  core_getInput :: "string \<Rightarrow> bool \<Rightarrow> thrown + string"
  path_resolve :: "string \<Rightarrow> string"
  path_join :: "string \<Rightarrow> string \<Rightarrow> string"
  git_revparse :: "string list \<Rightarrow> thrown + string"
  git_remote :: "string list \<Rightarrow> thrown + string"
  git_status_isClean :: "thrown + bool"
  git_add_commit :: "string \<Rightarrow> string \<Rightarrow> string promise"
  git_raw :: "string list \<Rightarrow> string promise"
  fs_readFile_base64 :: "string \<Rightarrow> string promise"
  octokit :: "nat \<Rightarrow> call \<Rightarrow> string promise"
  remote_heads :: "string \<Rightarrow> string option"

record inputs =
  INPUTS_token :: string
  INPUTS_path :: string
  INPUTS_branch :: string
  INPUTS_commitMessage :: string

record repository =
  REPO_repo :: "string option"
  REPO_owner :: "string option"
  REPO_branch :: string
  REPO_sha :: string

text \<open>
  \<open>CONTEXT\<close>, with the log of the calls made and the promises they returned, and the
  number of assignments to \<open>CONTEXT.TASK.lastCommitSha\<close> after the first.
  A field the program has not assigned yet holds the empty string or \<^term>\<open>None\<close>;
  the program reads no field before assigning it.
\<close>

record run_context =
  INPUTS :: inputs
  PATH :: string
  REPO :: repository
  TASK_lastCommitSha :: string
  TASK_branch :: string
  TASK_localCommit :: string
  trace :: "(call \<times> string promise) list"
  overwrites :: nat

definition CONTEXT :: run_context where
  "CONTEXT =
     \<lparr>INPUTS = \<lparr>INPUTS_token = [], INPUTS_path = [], INPUTS_branch = [],
                 INPUTS_commitMessage = []\<rparr>,
      PATH = [],
      REPO = \<lparr>REPO_repo = None, REPO_owner = None, REPO_branch = [], REPO_sha = []\<rparr>,
      TASK_lastCommitSha = [], TASK_branch = [], TASK_localCommit = [],
      trace = [], overwrites = 0\<rparr>"

text \<open>Issuing a call: the promise is the environment's, and the call is logged.\<close>

definition issue :: "run_context \<Rightarrow> call \<Rightarrow> string promise \<Rightarrow> run_context" where
  "issue ctx c p = ctx\<lparr>trace := trace ctx @ [(c, p)]\<rparr>"

section \<open>identifyRepository\<close>

text \<open>\<open>originRemote.trimEnd().replace(/\.git$/, '').split('/')\<close> and its
  \<open>slice(3, 5)\<close>\<close>

definition url_segments :: "string \<Rightarrow> string list" where
  "url_segments originRemote =
     split (\<lambda>c. c = CHR ''/'') (replace_git_suffix (trimEnd originRemote))"

definition owner_repo :: "string \<Rightarrow> string list" where
  "owner_repo originRemote = slice 3 5 (url_segments originRemote)"

definition identifyRepository :: "env \<Rightarrow> thrown + repository" where
  "identifyRepository env =
     (case git_revparse env [''--abbrev-ref'', ''HEAD''] of
        Inl e \<Rightarrow> Inl e
      | Inr branch \<Rightarrow>
          (case git_revparse env [''HEAD''] of
             Inl e \<Rightarrow> Inl e
           | Inr sha' \<Rightarrow>
               (case git_remote env [''get-url'', ''origin''] of
                  Inl e \<Rightarrow> Inl e
                | Inr originRemote \<Rightarrow>
                    Inr \<lparr>REPO_repo = at (owner_repo originRemote) 1,
                         REPO_owner = at (owner_repo originRemote) 0,
                         REPO_branch = branch, REPO_sha = sha'\<rparr>)))"

section \<open>getTree\<close>

definition tree_entry_of :: "string \<Rightarrow> tree_entry" where
  "tree_entry_of treeObject =
     \<lparr>mode = at (split isWhiteSpace treeObject) 0,
      type = at (split isWhiteSpace treeObject) 1,
      sha = at (split isWhiteSpace treeObject) 2,
      path = at (split (\<lambda>c. c = CHR 0x09) treeObject) 1\<rparr>"

definition parseTree :: "string \<Rightarrow> tree_entry list" where
  "parseTree raw = map tree_entry_of (split (\<lambda>c. c = CHR 0x0A) (trimEnd raw))"

text \<open>\<open>getTree\<close> returns a promise: it settles when \<open>git.raw\<close> does, rejected with the
  same value or fulfilled with the parsed listing.\<close>

definition getTree :: "env \<Rightarrow> run_context \<Rightarrow> string \<Rightarrow> tree_entry list promise \<times> run_context" where
  "getTree env ctx commitSha =
     (let args = [''ls-tree'', ''-r'', ''--full-tree'', commitSha];
          p = git_raw env args
      in ((fst p, (case snd p of Inl e \<Rightarrow> Inl e | Inr output \<Rightarrow> Inr (parseTree output))),
          issue ctx (GitRaw args) p))"

section \<open>createGithubBlobs\<close>

text \<open>\<open>path.join\<close> throws a \<open>TypeError\<close> when the file name is \<open>undefined\<close>; no file is
  read then.\<close>

definition ERR_INVALID_ARG_TYPE :: thrown where
  "ERR_INVALID_ARG_TYPE =
     Error (''The '' @ [CHR 0x22] @ ''path'' @ [CHR 0x22]
            @ '' argument must be of type string. Received undefined'')"

definition getBlobBase64Content ::
  "env \<Rightarrow> run_context \<Rightarrow> string option \<Rightarrow> (thrown + string) \<times> run_context" where
  "getBlobBase64Content env ctx file =
     (case file of
        None \<Rightarrow> (Inl ERR_INVALID_ARG_TYPE, ctx)
      | Some f \<Rightarrow>
          (let fileRelativePath = path_join env (PATH ctx) f;
               p = fs_readFile_base64 env fileRelativePath
           in (snd p, issue ctx (ReadFile fileRelativePath) p)))"

text \<open>The loop over the entries of the tree: the promises of the blob creations
  issued so far are the accumulator. A failed read ends the loop.\<close>

fun createGithubBlobs_loop ::
  "env \<Rightarrow> tree_entry list \<Rightarrow> tree_entry list \<Rightarrow> string promise list \<Rightarrow> run_context
     \<Rightarrow> (thrown + string promise list) \<times> run_context" where
  "createGithubBlobs_loop env previousTree [] promises ctx = (Inr promises, ctx)"
| "createGithubBlobs_loop env previousTree (treeEntry # tree) promises ctx =
     (if findIndex (\<lambda>entry. sha entry = sha treeEntry) previousTree \<noteq> - 1
      then createGithubBlobs_loop env previousTree tree promises ctx
      else (case getBlobBase64Content env ctx (path treeEntry) of
              (Inl e, ctx1) \<Rightarrow> (Inl e, ctx1)
            | (Inr base64Content, ctx1) \<Rightarrow>
                (let c = CreateBlob (REPO_owner (REPO ctx1)) (REPO_repo (REPO ctx1))
                           base64Content ''base64'';
                     p = octokit env (length (trace ctx1)) c
                 in createGithubBlobs_loop env previousTree tree (promises @ [p])
                      (issue ctx1 c p))))"

text \<open>The entries the loop does not skip, by the loop's own test.\<close>

fun uploadTasks :: "tree_entry list \<Rightarrow> tree_entry list \<Rightarrow> tree_entry list" where
  "uploadTasks previousTree [] = []"
| "uploadTasks previousTree (treeEntry # tree) =
     (if findIndex (\<lambda>entry. sha entry = sha treeEntry) previousTree \<noteq> - 1
      then uploadTasks previousTree tree
      else treeEntry # uploadTasks previousTree tree)"

definition createGithubBlobs ::
  "env \<Rightarrow> run_context \<Rightarrow> string \<Rightarrow> (thrown + unit) \<times> run_context" where
  "createGithubBlobs env ctx commitSha =
     (case getTree env ctx (commitSha @ ''~1'') of
        (p1, ctx1) \<Rightarrow>
          (case getTree env ctx1 commitSha of
             (p2, ctx2) \<Rightarrow>
               (case Promise_all [p1, p2] of
                  Inl e \<Rightarrow> (Inl e, ctx2)
                | Inr [previousTree, tree] \<Rightarrow>
                    (case createGithubBlobs_loop env previousTree tree [] ctx2 of
                       (Inl e, ctx3) \<Rightarrow> (Inl e, ctx3)
                     | (Inr promisesGithubCreateBlobs, ctx3) \<Rightarrow>
                         (case Promise_all promisesGithubCreateBlobs of
                            Inl e \<Rightarrow> (Inl e, ctx3)
                          | Inr _ \<Rightarrow> (Inr (), ctx3)))
                | Inr _ \<Rightarrow> (Inl (Error ''undefined is not iterable''), ctx2))))"

section \<open>createGithubTreeAndCommit, updateGithubRef\<close>

definition createGithubTreeAndCommit ::
  "env \<Rightarrow> run_context \<Rightarrow> tree_entry list \<Rightarrow> string \<Rightarrow> (thrown + unit) \<times> run_context" where
  "createGithubTreeAndCommit env ctx tree commitMessage =
     (let c1 = CreateTree (REPO_owner (REPO ctx)) (REPO_repo (REPO ctx)) tree;
          p1 = octokit env (length (trace ctx)) c1;
          ctx1 = issue ctx c1 p1
      in case snd p1 of
           Inl error \<Rightarrow>
             (Inl (set_message error (''Cannot create a new GitHub Tree: '' @ message error)),
              ctx1)
         | Inr treeSha \<Rightarrow>
             (let c2 = CreateCommit (REPO_owner (REPO ctx1)) (REPO_repo (REPO ctx1))
                         commitMessage [TASK_lastCommitSha ctx1] treeSha;
                  p2 = octokit env (length (trace ctx1)) c2;
                  ctx2 = issue ctx1 c2 p2
              in case snd p2 of
                   Inl e \<Rightarrow> (Inl e, ctx2)
                 | Inr commitSha \<Rightarrow>
                     (Inr (), ctx2\<lparr>TASK_lastCommitSha := commitSha,
                                    overwrites := overwrites ctx2 + 1\<rparr>)))"

definition updateGithubRef :: "env \<Rightarrow> run_context \<Rightarrow> (thrown + unit) \<times> run_context" where
  "updateGithubRef env ctx =
     (let c = UpdateRef (REPO_owner (REPO ctx)) (REPO_repo (REPO ctx))
                (''heads/'' @ TASK_branch ctx) (TASK_lastCommitSha ctx) True;
          p = octokit env (length (trace ctx)) c
      in (case snd p of Inl e \<Rightarrow> Inl e | Inr _ \<Rightarrow> Inr (), issue ctx c p))"

section \<open>createGithubVerifiedCommit\<close>

definition createGithubVerifiedCommit :: "env \<Rightarrow> run_context \<Rightarrow> (thrown + unit) \<times> run_context" where
  "createGithubVerifiedCommit env ctx =
     (case getTree env ctx (TASK_localCommit ctx) of
        (p, ctx1) \<Rightarrow>
          (case snd p of
             Inl e \<Rightarrow> (Inl e, ctx1)
           | Inr desiredTree \<Rightarrow>
               (case createGithubBlobs env ctx1 (TASK_localCommit ctx1) of
                  (Inl e, ctx2) \<Rightarrow> (Inl e, ctx2)
                | (Inr _, ctx2) \<Rightarrow>
                    (case createGithubTreeAndCommit env ctx2 desiredTree
                            (INPUTS_commitMessage (INPUTS ctx2)) of
                       (Inl e, ctx3) \<Rightarrow> (Inl e, ctx3)
                     | (Inr _, ctx3) \<Rightarrow> updateGithubRef env ctx3))))"

section \<open>createRemoteBranch\<close>

definition createRemoteBranch ::
  "env \<Rightarrow> run_context \<Rightarrow> string \<Rightarrow> (thrown + unit) \<times> run_context" where
  "createRemoteBranch env ctx branch =
     (let c = CreateRef (REPO_owner (REPO ctx)) (REPO_repo (REPO ctx)) (REPO_sha (REPO ctx))
                (''refs/heads/'' @ branch);
          p = octokit env (length (trace ctx)) c;
          ctx1 = issue ctx c p
      in case snd p of
           Inr _ \<Rightarrow> (Inr (), ctx1)
         | Inl error \<Rightarrow>
             (if instanceof_Error error \<and> message error \<noteq> ''Reference already exists''
              then (Inl error, ctx1)
              else (Inr (), ctx1)))"

section \<open>run\<close>

definition getInputs :: "env \<Rightarrow> thrown + inputs" where
  "getInputs env =
     (case core_getInput env ''token'' True of
        Inl e \<Rightarrow> Inl e
      | Inr token \<Rightarrow>
          (case core_getInput env ''path'' True of
             Inl e \<Rightarrow> Inl e
           | Inr path' \<Rightarrow>
               (case core_getInput env ''branch'' False of
                  Inl e \<Rightarrow> Inl e
                | Inr branch \<Rightarrow>
                    (case core_getInput env ''commit-message'' True of
                       Inl e \<Rightarrow> Inl e
                     | Inr commitMessage \<Rightarrow>
                         Inr \<lparr>INPUTS_token = token, INPUTS_path = path',
                              INPUTS_branch = branch,
                              INPUTS_commitMessage = commitMessage\<rparr>))))"

text \<open>The branch the run commits to: the input, or the checked-out branch when the
  input is empty.\<close>

definition target_branch :: "inputs \<Rightarrow> repository \<Rightarrow> string" where
  "target_branch inp r = (if INPUTS_branch inp \<noteq> [] then INPUTS_branch inp else REPO_branch r)"

definition run :: "env \<Rightarrow> (thrown + unit) \<times> run_context" where
  "run env =
     (case getInputs env of
        Inl e \<Rightarrow> (Inl e, CONTEXT)
      | Inr inp \<Rightarrow>
          (let ctx1 = CONTEXT\<lparr>INPUTS := inp, PATH := path_resolve env (INPUTS_path inp)\<rparr>
           in case identifyRepository env of
                Inl e \<Rightarrow> (Inl e, ctx1)
              | Inr r \<Rightarrow>
                  (let ctx2 = ctx1\<lparr>REPO := r, TASK_lastCommitSha := REPO_sha r\<rparr>
                   in case git_status_isClean env of
                        Inl e \<Rightarrow> (Inl e, ctx2)
                      | Inr isClean \<Rightarrow>
                          (let ctx3 = ctx2\<lparr>TASK_branch := target_branch inp r\<rparr>
                           in if isClean then (Inr (), ctx3)
                              else (case (if TASK_branch ctx3 \<noteq> REPO_branch (REPO ctx3)
                                          then createRemoteBranch env ctx3 (TASK_branch ctx3)
                                          else (Inr (), ctx3)) of
                                      (Inl e, ctx4) \<Rightarrow> (Inl e, ctx4)
                                    | (Inr _, ctx4) \<Rightarrow>
                                        (let p = git_add_commit env ''./*'' ''local commit'';
                                             ctx5 = issue ctx4
                                                      (GitAddCommit ''./*'' ''local commit'') p
                                         in case snd p of
                                              Inl e \<Rightarrow> (Inl e, ctx5)
                                            | Inr commit \<Rightarrow>
                                                createGithubVerifiedCommit env
                                                  (ctx5\<lparr>TASK_localCommit :=
                                                           replace ''HEAD '' [] commit\<rparr>)))))))"

section \<open>Reading the log\<close>

fun owner_of :: "call \<Rightarrow> string option" where
  "owner_of (CreateRef ow rp s r) = ow"
| "owner_of (CreateBlob ow rp c e) = ow"
| "owner_of (CreateTree ow rp t) = ow"
| "owner_of (CreateCommit ow rp m ps t) = ow"
| "owner_of (UpdateRef ow rp r s f) = ow"
| "owner_of c = None"

fun repo_of :: "call \<Rightarrow> string option" where
  "repo_of (CreateRef ow rp s r) = rp"
| "repo_of (CreateBlob ow rp c e) = rp"
| "repo_of (CreateTree ow rp t) = rp"
| "repo_of (CreateCommit ow rp m ps t) = rp"
| "repo_of (UpdateRef ow rp r s f) = rp"
| "repo_of c = None"

fun isCreateRef :: "call \<Rightarrow> bool" where
  "isCreateRef (CreateRef ow rp s r) = True"
| "isCreateRef c = False"

fun isCreateBlob :: "call \<Rightarrow> bool" where
  "isCreateBlob (CreateBlob ow rp c e) = True"
| "isCreateBlob c = False"

fun isCreateTree :: "call \<Rightarrow> bool" where
  "isCreateTree (CreateTree ow rp t) = True"
| "isCreateTree c = False"

fun isCreateCommit :: "call \<Rightarrow> bool" where
  "isCreateCommit (CreateCommit ow rp m ps t) = True"
| "isCreateCommit c = False"

fun isUpdateRef :: "call \<Rightarrow> bool" where
  "isUpdateRef (UpdateRef ow rp r s f) = True"
| "isUpdateRef c = False"

fun isReadFile :: "call \<Rightarrow> bool" where
  "isReadFile (ReadFile f) = True"
| "isReadFile c = False"

fun isGitRaw :: "call \<Rightarrow> bool" where
  "isGitRaw (GitRaw args) = True"
| "isGitRaw c = False"

text \<open>The files read, and the promises of the blob creations, in the order of the log.\<close>

fun filesRead :: "(call \<times> string promise) list \<Rightarrow> string list" where
  "filesRead [] = []"
| "filesRead ((ReadFile f, p) # tr) = f # filesRead tr"
| "filesRead (cp # tr) = filesRead tr"

fun blobPromises :: "(call \<times> string promise) list \<Rightarrow> string promise list" where
  "blobPromises [] = []"
| "blobPromises ((CreateBlob ow rp c e, p) # tr) = p # blobPromises tr"
| "blobPromises (cp # tr) = blobPromises tr"

text \<open>A promise that is rejected.\<close>

definition rejected :: "'a promise \<Rightarrow> bool" where
  "rejected p = (case snd p of Inl e \<Rightarrow> True | Inr v \<Rightarrow> False)"

text \<open>What a later context keeps of an earlier one: the log grows by \<open>new\<close>, and the
  inputs, the path, the repository, the branch and the local commit stay.\<close>

definition extends :: "run_context \<Rightarrow> run_context \<Rightarrow> (call \<times> string promise) list \<Rightarrow> bool" where
  "extends ctx ctx' new =
     (trace ctx' = trace ctx @ new \<and> INPUTS ctx' = INPUTS ctx \<and> PATH ctx' = PATH ctx
      \<and> REPO ctx' = REPO ctx \<and> TASK_branch ctx' = TASK_branch ctx
      \<and> TASK_localCommit ctx' = TASK_localCommit ctx)"

section \<open>Example runs\<close>

definition ls_tree_line :: "string \<Rightarrow> string \<Rightarrow> string \<Rightarrow> string \<Rightarrow> string" where
  "ls_tree_line m t s f = m @ '' '' @ t @ '' '' @ s @ [CHR 0x09] @ f @ [CHR 0x0A]"

text \<open>
  The scenario of the specification: the checked-out branch is \<open>main\<close> at commit \<open>a0\<close>,
  no branch input; the local commit \<open>c9\<close> has \<open>x.txt\<close> (content \<open>a1\<close>, as in its
  parent) and the new \<open>y.txt\<close> (content \<open>b2\<close>); every call succeeds.
\<close>

definition env_scenario :: env where
  "env_scenario =
     \<lparr>core_getInput = (\<lambda>name required.
          if name = ''token'' then Inr ''t0k3n''
          else if name = ''path'' then Inr ''.''
          else if name = ''branch'' then Inr []
          else Inr ''Automated commit''),
      path_resolve = (\<lambda>p. ''/work''),
      path_join = (\<lambda>a b. a @ ''/'' @ b),
      git_revparse = (\<lambda>args. if args = [''HEAD''] then Inr ''a0'' else Inr ''main''),
      git_remote = (\<lambda>args.
          Inr (''https://github.com/alvarezfr/action-verified-commit.git'' @ [CHR 0x0A])),
      git_status_isClean = Inr False,
      git_add_commit = (\<lambda>a m. (0, Inr ''HEAD c9'')),
      git_raw = (\<lambda>args.
          if args = [''ls-tree'', ''-r'', ''--full-tree'', ''c9~1'']
          then (1, Inr (ls_tree_line ''100644'' ''blob'' ''a1'' ''x.txt''))
          else (2, Inr (ls_tree_line ''100644'' ''blob'' ''a1'' ''x.txt''
                        @ ls_tree_line ''100644'' ''blob'' ''b2'' ''y.txt''))),
      fs_readFile_base64 = (\<lambda>f. (3, Inr ''eQo='')),
      octokit = (\<lambda>n c.
          if isCreateTree c then (n, Inr ''t7'')
          else if isCreateCommit c then (n, Inr ''c10'')
          else (n, Inr ''b2'')),
      remote_heads = (\<lambda>b. if b = ''main'' then Some ''a0'' else None)\<rparr>"

definition inputs_scenario :: inputs where
  "inputs_scenario =
     \<lparr>INPUTS_token = ''t0k3n'', INPUTS_path = ''.'', INPUTS_branch = [],
      INPUTS_commitMessage = ''Automated commit''\<rparr>"

definition repository_scenario :: repository where
  "repository_scenario =
     \<lparr>REPO_repo = Some ''action-verified-commit'', REPO_owner = Some ''alvarezfr'',
      REPO_branch = ''main'', REPO_sha = ''a0''\<rparr>"

text \<open>The context of the scenario when \<open>createGithubVerifiedCommit\<close> starts: the local
  commit is \<open>c9\<close>.\<close>

definition ctx_local_commit :: run_context where
  "ctx_local_commit =
     \<lparr>INPUTS = inputs_scenario, PATH = ''/work'', REPO = repository_scenario,
      TASK_lastCommitSha = ''a0'', TASK_branch = ''main'', TASK_localCommit = ''c9'',
      trace = [(GitAddCommit ''./*'' ''local commit'', (0, Inr ''HEAD c9''))],
      overwrites = 0\<rparr>"

definition entry_x :: tree_entry where
  "entry_x = \<lparr>mode = Some ''100644'', type = Some ''blob'', sha = Some ''a1'',
              path = Some ''x.txt''\<rparr>"

definition entry_y :: tree_entry where
  "entry_y = \<lparr>mode = Some ''100644'', type = Some ''blob'', sha = Some ''b2'',
              path = Some ''y.txt''\<rparr>"

text \<open>The same with a clean working tree.\<close>

definition env_clean :: env where
  "env_clean = env_scenario\<lparr>git_status_isClean := Inr True\<rparr>"

text \<open>The same with the branch input \<open>bot\<close>, a branch that exists in the remote
  repository, at commit \<open>c1\<close>.\<close>

definition env_bot :: env where
  "env_bot =
     env_scenario
       \<lparr>core_getInput := (\<lambda>name required.
          if name = ''branch'' then Inr ''bot'' else core_getInput env_scenario name required),
        octokit := (\<lambda>n c.
          if isCreateRef c then (n, Inl (Error ''Reference already exists''))
          else octokit env_scenario n c),
        remote_heads := (\<lambda>b. if b = ''bot'' then Some ''c1'' else remote_heads env_scenario b)\<rparr>"




text \<open>The scenario when the local commit is the first of the repository: its parent
  does not resolve.\<close>

definition env_first_commit :: env where
  "env_first_commit =
     env_scenario\<lparr>git_raw := (\<lambda>args.
          if args = [''ls-tree'', ''-r'', ''--full-tree'', ''c9~1'']
          then (1, Inl (Error ''fatal: Not a valid object name c9~1''))
          else git_raw env_scenario args)\<rparr>"

text \<open>The scenario when the local commit changes nothing that the parent does not
  have: both listings are the same, and nothing is uploaded.\<close>

definition env_no_upload :: env where
  "env_no_upload =
     env_scenario\<lparr>git_raw := (\<lambda>args.
          (1, Inr (ls_tree_line ''100644'' ''blob'' ''a1'' ''x.txt'')))\<rparr>"

text \<open>The scenario when the listing of every commit is empty.\<close>

definition env_empty_listing :: env where
  "env_empty_listing = env_scenario\<lparr>git_raw := (\<lambda>args. (1, Inr []))\<rparr>"


section \<open>Stages of a run\<close>

text \<open>The calls of the blob stage: listings, file reads, and blob creations for the
  repository of the context.\<close>

definition blobStage :: "run_context \<Rightarrow> (call \<times> string promise) list \<Rightarrow> bool" where
  "blobStage ctx new =
     list_all (\<lambda>cp. isGitRaw (fst cp) \<or> isReadFile (fst cp)
                  \<or> (isCreateBlob (fst cp) \<and> owner_of (fst cp) = REPO_owner (REPO ctx)
                      \<and> repo_of (fst cp) = REPO_repo (REPO ctx))) new"

text \<open>The context of \<open>run\<close> when it checks the working tree.\<close>

definition prepared :: "env \<Rightarrow> inputs \<Rightarrow> repository \<Rightarrow> run_context" where
  "prepared env inp r =
     CONTEXT\<lparr>INPUTS := inp, PATH := path_resolve env (INPUTS_path inp), REPO := r,
             TASK_lastCommitSha := REPO_sha r, TASK_branch := target_branch inp r\<rparr>"

text \<open>The remote commit state is untouched.\<close>

definition keeps :: "run_context \<Rightarrow> run_context \<Rightarrow> bool" where
  "keeps ctx ctx' =
     (TASK_lastCommitSha ctx' = TASK_lastCommitSha ctx \<and> overwrites ctx' = overwrites ctx)"

text \<open>
  The three ways the stage after the uploads ends, with its calls \<open>rest\<close>: the tree
  creation is rejected; the commit creation is rejected; or the commit is created, the
  remote commit state is overwritten with it, and the reference is updated.
\<close>

definition treeStage ::
  "run_context \<Rightarrow> tree_entry list \<Rightarrow> (call \<times> string promise) list \<Rightarrow> thrown + unit
     \<Rightarrow> run_context \<Rightarrow> bool" where
  "treeStage ctx tree rest r ctx' =
     ((\<exists>p1 e. rest = [(CreateTree (REPO_owner (REPO ctx)) (REPO_repo (REPO ctx)) tree, p1)]
          \<and> snd p1 = Inl e
          \<and> r = Inl (set_message e (''Cannot create a new GitHub Tree: '' @ message e))
          \<and> keeps ctx ctx')
      \<or> (\<exists>p1 treeSha p2 e.
            rest = [(CreateTree (REPO_owner (REPO ctx)) (REPO_repo (REPO ctx)) tree, p1),
                    (CreateCommit (REPO_owner (REPO ctx)) (REPO_repo (REPO ctx))
                       (INPUTS_commitMessage (INPUTS ctx)) [TASK_lastCommitSha ctx] treeSha, p2)]
          \<and> snd p1 = Inr treeSha \<and> snd p2 = Inl e \<and> r = Inl e \<and> keeps ctx ctx')
      \<or> (\<exists>p1 treeSha p2 commitSha p3.
            rest = [(CreateTree (REPO_owner (REPO ctx)) (REPO_repo (REPO ctx)) tree, p1),
                    (CreateCommit (REPO_owner (REPO ctx)) (REPO_repo (REPO ctx))
                       (INPUTS_commitMessage (INPUTS ctx)) [TASK_lastCommitSha ctx] treeSha, p2),
                    (UpdateRef (REPO_owner (REPO ctx)) (REPO_repo (REPO ctx))
                       (''heads/'' @ TASK_branch ctx) commitSha True, p3)]
          \<and> snd p1 = Inr treeSha \<and> snd p2 = Inr commitSha
          \<and> TASK_lastCommitSha ctx' = commitSha \<and> overwrites ctx' = overwrites ctx + 1
          \<and> r = (case snd p3 of Inl e \<Rightarrow> Inl e | Inr v \<Rightarrow> Inr ())))"

section \<open>Strings, arrays and the upload selection\<close>

lemma split_not_Nil: "split sep s \<noteq> []"
  by (induction s) (auto split: list.splits)

lemma parseTree_not_Nil: "parseTree raw \<noteq> []"
  by (simp add: parseTree_def split_not_Nil)

lemma parseTree_empty:
  "trimEnd raw = [] \<Longrightarrow>
     parseTree raw = [\<lparr>mode = Some [], type = None, sha = None, path = None\<rparr>]"
  by (simp add: parseTree_def tree_entry_of_def at_def)

lemma findIndex_from_none:
  "0 \<le> i \<Longrightarrow> (findIndex_from p xs i = - 1) = (\<forall>x \<in> set xs. \<not> p x)"
  by (induction xs arbitrary: i) auto

lemma findIndex_none: "(findIndex p xs = - 1) = (\<forall>x \<in> set xs. \<not> p x)"
  by (simp add: findIndex_def findIndex_from_none)

lemma findIndex_sha:
  "(findIndex (\<lambda>entry. sha entry = s) P \<noteq> - 1) = (s \<in> sha ` set P)"
  by (auto simp: findIndex_none image_iff)

lemma uploadTasks_filter:
  "uploadTasks P T = filter (\<lambda>e. sha e \<notin> sha ` set P) T"
  by (induction T) (simp_all add: findIndex_sha)


section \<open>The log\<close>

lemma issue_simps [simp]:
  "trace (issue ctx c p) = trace ctx @ [(c, p)]"
  "INPUTS (issue ctx c p) = INPUTS ctx"
  "PATH (issue ctx c p) = PATH ctx"
  "REPO (issue ctx c p) = REPO ctx"
  "TASK_lastCommitSha (issue ctx c p) = TASK_lastCommitSha ctx"
  "TASK_branch (issue ctx c p) = TASK_branch ctx"
  "TASK_localCommit (issue ctx c p) = TASK_localCommit ctx"
  "overwrites (issue ctx c p) = overwrites ctx"
  by (simp_all add: issue_def)

lemma filesRead_append [simp]: "filesRead (a @ b) = filesRead a @ filesRead b"
  by (induction a rule: filesRead.induct) auto

lemma blobPromises_append [simp]: "blobPromises (a @ b) = blobPromises a @ blobPromises b"
  by (induction a rule: blobPromises.induct) auto

lemma blobPromises_mem:
  "p \<in> set (blobPromises tr) \<Longrightarrow> \<exists>c. (c, p) \<in> set tr \<and> isCreateBlob c"
  by (induction tr rule: blobPromises.induct) auto

lemma blobPromises_none:
  "\<forall>c p. (c, p) \<in> set tr \<longrightarrow> \<not> isCreateBlob c \<Longrightarrow> blobPromises tr = []"
  by (induction tr rule: blobPromises.induct) auto

lemma getTree_ctx [simp]:
  "snd (getTree env ctx commitSha)
     = issue ctx (GitRaw [''ls-tree'', ''-r'', ''--full-tree'', commitSha])
         (git_raw env [''ls-tree'', ''-r'', ''--full-tree'', commitSha])"
  by (simp add: getTree_def Let_def)

lemma getTree_promise:
  "fst (getTree env ctx commitSha)
     = (fst (git_raw env [''ls-tree'', ''-r'', ''--full-tree'', commitSha]),
        case snd (git_raw env [''ls-tree'', ''-r'', ''--full-tree'', commitSha]) of
          Inl e \<Rightarrow> Inl e | Inr output \<Rightarrow> Inr (parseTree output))"
  by (simp add: getTree_def Let_def)

lemma getBlobBase64Content_cases:
  "getBlobBase64Content env ctx file = (r, ctx') \<Longrightarrow>
     (file = None \<and> r = Inl ERR_INVALID_ARG_TYPE \<and> ctx' = ctx)
     \<or> (\<exists>f. file = Some f \<and> r = snd (fs_readFile_base64 env (path_join env (PATH ctx) f))
            \<and> ctx' = issue ctx (ReadFile (path_join env (PATH ctx) f))
                        (fs_readFile_base64 env (path_join env (PATH ctx) f)))"
  by (auto simp: getBlobBase64Content_def Let_def split: option.splits)

section \<open>Promises\<close>

lemma firstRejection_None: "(firstRejection ps = None) = list_all (\<lambda>p. \<not> rejected p) ps"
  by (induction ps rule: firstRejection.induct) (auto simp: rejected_def split: option.splits)

lemma firstRejection_Some: "firstRejection ps = Some (t, e) \<Longrightarrow> (t, Inl e) \<in> set ps"
  by (induction ps arbitrary: t e rule: firstRejection.induct)
     (auto split: option.splits if_splits)

lemma Promise_all_Inr: "Promise_all ps = Inr vs \<Longrightarrow> list_all (\<lambda>p. \<not> rejected p) ps"
  by (auto simp: Promise_all_def firstRejection_None [symmetric] split: option.splits)

lemma Promise_all_Inl: "Promise_all ps = Inl e \<Longrightarrow> \<exists>t. (t, Inl e) \<in> set ps"
  by (auto simp: Promise_all_def split: option.splits dest: firstRejection_Some)


lemma Promise_all_two:
  "Promise_all [p1, p2] = Inr xs \<Longrightarrow> \<exists>a b. xs = [a, b] \<and> snd p1 = Inr a \<and> snd p2 = Inr b"
  by (cases p1; cases p2; cases "snd p1"; cases "snd p2")
     (auto simp: Promise_all_def split: option.splits if_splits)

section \<open>The blob stage\<close>

lemma extends_refl [simp]: "extends ctx ctx []"
  by (simp add: extends_def)

lemma extends_issue [simp]: "extends ctx (issue ctx c p) [(c, p)]"
  by (simp add: extends_def)

lemma extends_trans: "extends a b n1 \<Longrightarrow> extends b c n2 \<Longrightarrow> extends a c (n1 @ n2)"
  by (simp add: extends_def)

lemma keeps_refl [simp]: "keeps ctx ctx"
  by (simp add: keeps_def)

lemma keeps_issue [simp]: "keeps ctx (issue ctx c p)"
  by (simp add: keeps_def)

lemma keeps_trans: "keeps a b \<Longrightarrow> keeps b c \<Longrightarrow> keeps a c"
  by (simp add: keeps_def)

lemma blobStage_Nil [simp]: "blobStage ctx []"
  by (simp add: blobStage_def)

lemma blobStage_append [simp]: "blobStage ctx (a @ b) = (blobStage ctx a \<and> blobStage ctx b)"
  by (simp add: blobStage_def)

lemma blobStage_Cons:
  "blobStage ctx (cp # tr) =
     ((isGitRaw (fst cp) \<or> isReadFile (fst cp)
       \<or> (isCreateBlob (fst cp) \<and> owner_of (fst cp) = REPO_owner (REPO ctx)
           \<and> repo_of (fst cp) = REPO_repo (REPO ctx))) \<and> blobStage ctx tr)"
  by (simp add: blobStage_def)

lemma blobStage_REPO: "REPO ctx1 = REPO ctx \<Longrightarrow> blobStage ctx1 new = blobStage ctx new"
  by (simp add: blobStage_def)

lemma blobStage_calls:
  "blobStage ctx new \<Longrightarrow> (c, p) \<in> set new \<Longrightarrow>
     \<not> isCreateRef c \<and> \<not> isCreateTree c \<and> \<not> isCreateCommit c \<and> \<not> isUpdateRef c
     \<and> (isRemote c \<longrightarrow> owner_of c = REPO_owner (REPO ctx) \<and> repo_of c = REPO_repo (REPO ctx))"
  by (cases c) (auto simp: blobStage_def list_all_iff)

lemma blobStage_blobPromises:
  "blobStage ctx new \<Longrightarrow> (c, p) \<in> set new \<Longrightarrow> \<not> isCreateTree c \<and> \<not> isCreateCommit c \<and> \<not> isUpdateRef c"
  using blobStage_calls by blast

lemma blobStage_dropWhile:
  "blobStage ctx new \<Longrightarrow> dropWhile (\<lambda>cp. \<not> isCreateTree (fst cp)) (new @ rest)
     = dropWhile (\<lambda>cp. \<not> isCreateTree (fst cp)) rest"
  by (rule dropWhile_append2) (use blobStage_calls in fastforce)

lemma loop_tasks:
  "createGithubBlobs_loop env P T ps ctx = (Inr ps', ctx') \<Longrightarrow>
     \<exists>new. extends ctx ctx' new
       \<and> TASK_lastCommitSha ctx' = TASK_lastCommitSha ctx \<and> overwrites ctx' = overwrites ctx
       \<and> map Some (filesRead new)
           = map (\<lambda>e. map_option (path_join env (PATH ctx)) (path e)) (uploadTasks P T)
       \<and> ps' = ps @ blobPromises new
       \<and> length (blobPromises new) = length (uploadTasks P T)"
proof (induction T arbitrary: ps ctx)
  case Nil
  then show ?case by (auto simp: extends_def)
next
  case (Cons treeEntry T)
  show ?case
  proof (cases "findIndex (\<lambda>entry. sha entry = sha treeEntry) P \<noteq> - 1")
    case True
    with Cons.prems have "createGithubBlobs_loop env P T ps ctx = (Inr ps', ctx')" by simp
    from Cons.IH [OF this] True show ?thesis by simp
  next
    case False
    obtain r ctx1 where g: "getBlobBase64Content env ctx (path treeEntry) = (r, ctx1)"
      by (cases "getBlobBase64Content env ctx (path treeEntry)")
    with Cons.prems False obtain content where r: "r = Inr content"
      by (cases r) auto
    from getBlobBase64Content_cases [OF g] r obtain f where
      f: "path treeEntry = Some f"
         "ctx1 = issue ctx (ReadFile (path_join env (PATH ctx) f))
                   (fs_readFile_base64 env (path_join env (PATH ctx) f))"
      by auto
    define c where "c = CreateBlob (REPO_owner (REPO ctx1)) (REPO_repo (REPO ctx1)) content ''base64''"
    define p where "p = octokit env (length (trace ctx1)) c"
    from Cons.prems False g r
    have "createGithubBlobs_loop env P T (ps @ [p]) (issue ctx1 c p) = (Inr ps', ctx')"
      by (simp add: Let_def c_def p_def)
    from Cons.IH [OF this] obtain new where new:
      "extends (issue ctx1 c p) ctx' new"
      "TASK_lastCommitSha ctx' = TASK_lastCommitSha (issue ctx1 c p)"
      "overwrites ctx' = overwrites (issue ctx1 c p)"
      "map Some (filesRead new)
         = map (\<lambda>e. map_option (path_join env (PATH (issue ctx1 c p))) (path e)) (uploadTasks P T)"
      "ps' = (ps @ [p]) @ blobPromises new"
      "length (blobPromises new) = length (uploadTasks P T)"
      by blast
    let ?new = "(ReadFile (path_join env (PATH ctx) f),
                 fs_readFile_base64 env (path_join env (PATH ctx) f)) # (c, p) # new"
    have "extends ctx ctx' ?new"
      using new(1) f(2) by (simp add: extends_def)
    moreover have "map Some (filesRead ?new)
           = map (\<lambda>e. map_option (path_join env (PATH ctx)) (path e)) (uploadTasks P (treeEntry # T))"
      using new(4) f False by (simp add: c_def)
    moreover have "ps' = ps @ blobPromises ?new" using new(5) by (simp add: c_def)
    moreover have "length (blobPromises ?new) = length (uploadTasks P (treeEntry # T))"
      using new(6) False by (simp add: c_def)
    ultimately show ?thesis using new(2,3) f(2) by auto
  qed
qed

lemma loop_extends:
  "createGithubBlobs_loop env P T ps ctx = (r, ctx') \<Longrightarrow>
     \<exists>new. extends ctx ctx' new \<and> keeps ctx ctx' \<and> blobStage ctx new
       \<and> (\<forall>ps'. r = Inr ps' \<longrightarrow> ps' = ps @ blobPromises new)"
proof (induction T arbitrary: ps ctx)
  case Nil
  then show ?case by (auto intro!: exI [of _ "[]"])
next
  case (Cons treeEntry T)
  show ?case
  proof (cases "findIndex (\<lambda>entry. sha entry = sha treeEntry) P \<noteq> - 1")
    case True
    with Cons.prems have "createGithubBlobs_loop env P T ps ctx = (r, ctx')" by simp
    from Cons.IH [OF this] show ?thesis .
  next
    case False
    obtain r1 ctx1 where g: "getBlobBase64Content env ctx (path treeEntry) = (r1, ctx1)"
      by (cases "getBlobBase64Content env ctx (path treeEntry)")
    from getBlobBase64Content_cases [OF g]
    obtain n1 where n1: "extends ctx ctx1 n1" "blobStage ctx n1" "blobPromises n1 = []"
      and k1: "keeps ctx ctx1"
    proof (elim disjE conjE exE)
      assume "ctx1 = ctx"
      then show ?thesis using that [of "[]"] by simp
    next
      fix f
      assume "ctx1 = issue ctx (ReadFile (path_join env (PATH ctx) f))
                       (fs_readFile_base64 env (path_join env (PATH ctx) f))"
      then show ?thesis
        using that [of "[(ReadFile (path_join env (PATH ctx) f),
                          fs_readFile_base64 env (path_join env (PATH ctx) f))]"]
        by (simp add: blobStage_Cons)
    qed
    show ?thesis
    proof (cases r1)
      case (Inl e)
      with Cons.prems False g have "r = Inl e" "ctx' = ctx1" by auto
      with n1 k1 show ?thesis by auto
    next
      case (Inr content)
      define c where "c = CreateBlob (REPO_owner (REPO ctx1)) (REPO_repo (REPO ctx1)) content ''base64''"
      define p where "p = octokit env (length (trace ctx1)) c"
      from Cons.prems False g Inr
      have "createGithubBlobs_loop env P T (ps @ [p]) (issue ctx1 c p) = (r, ctx')"
        by (simp add: Let_def c_def p_def)
      from Cons.IH [OF this] obtain new where new:
        "extends (issue ctx1 c p) ctx' new" "keeps (issue ctx1 c p) ctx'"
        "blobStage (issue ctx1 c p) new"
        "\<forall>ps'. r = Inr ps' \<longrightarrow> ps' = (ps @ [p]) @ blobPromises new"
        by blast
      have R: "REPO ctx1 = REPO ctx" using n1(1) by (simp add: extends_def)
      have "extends ctx ctx' (n1 @ (c, p) # new)"
        using n1(1) new(1) by (simp add: extends_def)
      moreover have "keeps ctx ctx'"
        using k1 new(2) by (simp add: keeps_def)
      moreover have "blobStage ctx (n1 @ (c, p) # new)"
        using n1(2) new(3) R by (simp add: blobStage_Cons c_def blobStage_def)
      moreover have "\<forall>ps'. r = Inr ps' \<longrightarrow> ps' = ps @ blobPromises (n1 @ (c, p) # new)"
        using new(4) n1(3) by (simp add: c_def)
      ultimately show ?thesis by blast
    qed
  qed
qed


lemma createGithubBlobs_shape:
  assumes "createGithubBlobs env ctx commitSha = (r, ctx')"
  shows "\<exists>new. extends ctx ctx' new \<and> keeps ctx ctx' \<and> blobStage ctx new
           \<and> (r = Inr () \<longrightarrow> list_all (\<lambda>p. \<not> rejected p) (blobPromises new))"
proof -
  define a1 where "a1 = [''ls-tree'', ''-r'', ''--full-tree'', commitSha @ ''~1'']"
  define a2 where "a2 = [''ls-tree'', ''-r'', ''--full-tree'', commitSha]"
  define ctx2 where "ctx2 = issue (issue ctx (GitRaw a1) (git_raw env a1)) (GitRaw a2) (git_raw env a2)"
  define p1 where "p1 = fst (getTree env ctx (commitSha @ ''~1''))"
  define p2 where "p2 = fst (getTree env (issue ctx (GitRaw a1) (git_raw env a1)) commitSha)"
  have e2: "extends ctx ctx2 [(GitRaw a1, git_raw env a1), (GitRaw a2, git_raw env a2)]"
    and k2: "keeps ctx ctx2"
    by (simp_all add: ctx2_def extends_def keeps_def)
  have b2: "blobStage ctx [(GitRaw a1, git_raw env a1), (GitRaw a2, git_raw env a2)]"
    by (simp add: blobStage_Cons)
  have unf: "createGithubBlobs env ctx commitSha =
      (case Promise_all [p1, p2] of
         Inl e \<Rightarrow> (Inl e, ctx2)
       | Inr [] \<Rightarrow> (Inl (Error ''undefined is not iterable''), ctx2)
       | Inr [previousTree] \<Rightarrow> (Inl (Error ''undefined is not iterable''), ctx2)
       | Inr [previousTree, tree] \<Rightarrow>
           (case createGithubBlobs_loop env previousTree tree [] ctx2 of
              (Inl e, ctx3) \<Rightarrow> (Inl e, ctx3)
            | (Inr promisesGithubCreateBlobs, ctx3) \<Rightarrow>
                (case Promise_all promisesGithubCreateBlobs of
                   Inl e \<Rightarrow> (Inl e, ctx3)
                 | Inr _ \<Rightarrow> (Inr (), ctx3)))
       | Inr (previousTree # tree # x # xs) \<Rightarrow> (Inl (Error ''undefined is not iterable''), ctx2))"
    unfolding createGithubBlobs_def p1_def p2_def ctx2_def a1_def a2_def
    by (simp add: getTree_def Let_def split: prod.splits sum.splits list.splits)
  show ?thesis
  proof (cases "Promise_all [p1, p2]")
    case (Inl e)
    with assms unf have "r = Inl e" "ctx' = ctx2" by auto
    with e2 k2 b2 show ?thesis by blast
  next
    case (Inr xs)
    from Promise_all_two [OF this] obtain previousTree tree where xs: "xs = [previousTree, tree]"
      by blast
    obtain r3 ctx3 where l: "createGithubBlobs_loop env previousTree tree [] ctx2 = (r3, ctx3)"
      by (cases "createGithubBlobs_loop env previousTree tree [] ctx2")
    from loop_extends [OF l] obtain new3 where new3:
      "extends ctx2 ctx3 new3" "keeps ctx2 ctx3" "blobStage ctx2 new3"
      "\<forall>ps'. r3 = Inr ps' \<longrightarrow> ps' = [] @ blobPromises new3"
      by blast
    have R: "REPO ctx2 = REPO ctx" by (simp add: ctx2_def)
    have e3: "extends ctx ctx3 ([(GitRaw a1, git_raw env a1), (GitRaw a2, git_raw env a2)] @ new3)"
      using extends_trans [OF e2 new3(1)] .
    have k3: "keeps ctx ctx3" using keeps_trans [OF k2 new3(2)] .
    have b3: "blobStage ctx ([(GitRaw a1, git_raw env a1), (GitRaw a2, git_raw env a2)] @ new3)"
      using b2 new3(3) blobStage_REPO [OF R] by (simp add: blobStage_Cons)
    have bp: "blobPromises ([(GitRaw a1, git_raw env a1), (GitRaw a2, git_raw env a2)] @ new3)
                = blobPromises new3"
      by simp
    have c3: "ctx' = ctx3"
      using assms unf Inr xs l by (auto split: sum.splits)
    have "r = Inr () \<longrightarrow> list_all (\<lambda>p. \<not> rejected p) (blobPromises new3)"
    proof
      assume "r = Inr ()"
      with assms unf Inr xs l obtain ps vs where "r3 = Inr ps" "Promise_all ps = Inr vs"
        by (auto split: sum.splits)
      with new3(4) Promise_all_Inr show "list_all (\<lambda>p. \<not> rejected p) (blobPromises new3)"
        by auto
    qed
    with e3 k3 b3 bp c3 show ?thesis by metis
  qed
qed


section \<open>The stage after the uploads\<close>

lemma treeStage_cong:
  "extends ctx ctx2 new \<Longrightarrow> keeps ctx ctx2 \<Longrightarrow>
     treeStage ctx2 tree rest r ctx' = treeStage ctx tree rest r ctx'"
  by (simp add: treeStage_def extends_def keeps_def)

lemma treeStage_calls:
  "treeStage ctx tree rest r ctx' \<Longrightarrow> (c, p) \<in> set rest \<Longrightarrow>
     \<not> isCreateRef c \<and> \<not> isCreateBlob c
     \<and> owner_of c = REPO_owner (REPO ctx) \<and> repo_of c = REPO_repo (REPO ctx)"
  by (auto simp: treeStage_def)

lemma treeStage_blobPromises: "treeStage ctx tree rest r ctx' \<Longrightarrow> blobPromises rest = []"
  by (auto simp: treeStage_def)

text \<open>What the calls after the uploads carry, and what they leave in the context.\<close>

lemma treeStage_facts:
  assumes "treeStage ctx tree rest r ctx'"
  shows "(CreateTree ow rp t, p) \<in> set rest \<longrightarrow> t = tree"
    and "(CreateCommit ow rp m ps ts, p) \<in> set rest \<longrightarrow>
           ps = [TASK_lastCommitSha ctx]
           \<and> (rejected p \<longrightarrow> keeps ctx ctx')
           \<and> (\<forall>v. snd p = Inr v \<longrightarrow>
                 TASK_lastCommitSha ctx' = v \<and> overwrites ctx' = overwrites ctx + 1)"
    and "(UpdateRef ow rp ref s f, p) \<in> set rest \<longrightarrow>
           ref = ''heads/'' @ TASK_branch ctx \<and> s = TASK_lastCommitSha ctx' \<and> f
           \<and> overwrites ctx' = overwrites ctx + 1"
    and "keeps ctx ctx'
         \<or> (overwrites ctx' = overwrites ctx + 1
             \<and> (\<exists>ow rp m ps t tm. (CreateCommit ow rp m ps t, (tm, Inr (TASK_lastCommitSha ctx')))
                                     \<in> set rest))"
    and "list_ex (\<lambda>cp. isCreateTree (fst cp)) rest"
    and "\<forall>before c p after. rest = before @ (c, p) # after \<and> isCreateTree c \<longrightarrow> before = []"
proof -
  show "(CreateTree ow rp t, p) \<in> set rest \<longrightarrow> t = tree"
    using assms by (auto simp: treeStage_def)
  show "(CreateCommit ow rp m ps ts, p) \<in> set rest \<longrightarrow>
           ps = [TASK_lastCommitSha ctx]
           \<and> (rejected p \<longrightarrow> keeps ctx ctx')
           \<and> (\<forall>v. snd p = Inr v \<longrightarrow>
                 TASK_lastCommitSha ctx' = v \<and> overwrites ctx' = overwrites ctx + 1)"
    using assms by (auto simp: treeStage_def rejected_def)
  show "(UpdateRef ow rp ref s f, p) \<in> set rest \<longrightarrow>
           ref = ''heads/'' @ TASK_branch ctx \<and> s = TASK_lastCommitSha ctx' \<and> f
           \<and> overwrites ctx' = overwrites ctx + 1"
    using assms by (auto simp: treeStage_def)
  show "keeps ctx ctx'
         \<or> (overwrites ctx' = overwrites ctx + 1
             \<and> (\<exists>ow rp m ps t tm. (CreateCommit ow rp m ps t, (tm, Inr (TASK_lastCommitSha ctx')))
                                     \<in> set rest))"
    using assms unfolding treeStage_def
  proof (elim disjE exE conjE)
    fix p1 treeSha p2 commitSha p3
    assume h: "rest = [(CreateTree (REPO_owner (REPO ctx)) (REPO_repo (REPO ctx)) tree, p1),
                 (CreateCommit (REPO_owner (REPO ctx)) (REPO_repo (REPO ctx))
                    (INPUTS_commitMessage (INPUTS ctx)) [TASK_lastCommitSha ctx] treeSha, p2),
                 (UpdateRef (REPO_owner (REPO ctx)) (REPO_repo (REPO ctx))
                    (''heads/'' @ TASK_branch ctx) commitSha True, p3)]"
      "snd p2 = Inr commitSha" "TASK_lastCommitSha ctx' = commitSha"
      "overwrites ctx' = overwrites ctx + 1"
    then have "p2 = (fst p2, Inr (TASK_lastCommitSha ctx'))" by (metis prod.collapse)
    with h have "(CreateCommit (REPO_owner (REPO ctx)) (REPO_repo (REPO ctx))
                    (INPUTS_commitMessage (INPUTS ctx)) [TASK_lastCommitSha ctx] treeSha,
                  (fst p2, Inr (TASK_lastCommitSha ctx'))) \<in> set rest"
      by simp
    with h(4) show ?thesis by blast
  qed simp_all
  show "list_ex (\<lambda>cp. isCreateTree (fst cp)) rest"
    using assms by (auto simp: treeStage_def)
  show "\<forall>before c p after. rest = before @ (c, p) # after \<and> isCreateTree c \<longrightarrow> before = []"
    using assms by (auto simp: treeStage_def Cons_eq_append_conv append_eq_Cons_conv)
qed

lemma tree_commit_update:
  assumes "(case createGithubTreeAndCommit env ctx tree (INPUTS_commitMessage (INPUTS ctx)) of
              (Inl e, ctx3) \<Rightarrow> (Inl e, ctx3)
            | (Inr u, ctx3) \<Rightarrow> updateGithubRef env ctx3) = (r, ctx')"
  shows "\<exists>rest. extends ctx ctx' rest \<and> treeStage ctx tree rest r ctx'"
proof -
  define c1 where "c1 = CreateTree (REPO_owner (REPO ctx)) (REPO_repo (REPO ctx)) tree"
  define p1 where "p1 = octokit env (length (trace ctx)) c1"
  show ?thesis
  proof (cases "snd p1")
    case (Inl e)
    with assms have "r = Inl (set_message e (''Cannot create a new GitHub Tree: '' @ message e))"
      "ctx' = issue ctx c1 p1"
      by (simp_all add: createGithubTreeAndCommit_def Let_def c1_def p1_def)
    with Inl show ?thesis
      by (intro exI [of _ "[(c1, p1)]"]) (auto simp: treeStage_def c1_def)
  next
    case (Inr treeSha)
    define c2 where "c2 = CreateCommit (REPO_owner (REPO ctx)) (REPO_repo (REPO ctx))
                            (INPUTS_commitMessage (INPUTS ctx)) [TASK_lastCommitSha ctx] treeSha"
    define p2 where "p2 = octokit env (length (trace (issue ctx c1 p1))) c2"
    show ?thesis
    proof (cases "snd p2")
      case (Inl e)
      with assms Inr have "r = Inl e" "ctx' = issue (issue ctx c1 p1) c2 p2"
        by (simp_all add: createGithubTreeAndCommit_def Let_def c1_def p1_def c2_def p2_def)
      with Inl Inr show ?thesis
        by (intro exI [of _ "[(c1, p1), (c2, p2)]"])
           (auto simp: treeStage_def c1_def c2_def extends_def keeps_def)
    next
      case commit: (Inr commitSha)
      define ctx3 where "ctx3 = (issue (issue ctx c1 p1) c2 p2)
                                  \<lparr>TASK_lastCommitSha := commitSha,
                                   overwrites := overwrites (issue (issue ctx c1 p1) c2 p2) + 1\<rparr>"
      define c3 where "c3 = UpdateRef (REPO_owner (REPO ctx)) (REPO_repo (REPO ctx))
                              (''heads/'' @ TASK_branch ctx) commitSha True"
      define p3 where "p3 = octokit env (length (trace ctx3)) c3"
      from assms Inr commit
      have "r = (case snd p3 of Inl e \<Rightarrow> Inl e | Inr v \<Rightarrow> Inr ())" "ctx' = issue ctx3 c3 p3"
        by (simp_all add: createGithubTreeAndCommit_def updateGithubRef_def Let_def
              c1_def p1_def c2_def p2_def c3_def p3_def ctx3_def)
      with Inr commit show ?thesis
        by (intro exI [of _ "[(c1, p1), (c2, p2), (c3, p3)]"])
           (auto simp: treeStage_def c1_def c2_def c3_def ctx3_def extends_def)
    qed
  qed
qed

lemma createGithubVerifiedCommit_unfold:
  "createGithubVerifiedCommit env ctx =
     (case snd (fst (getTree env ctx (TASK_localCommit ctx))) of
        Inl e \<Rightarrow> (Inl e, snd (getTree env ctx (TASK_localCommit ctx)))
      | Inr desiredTree \<Rightarrow>
          (case createGithubBlobs env (snd (getTree env ctx (TASK_localCommit ctx)))
                  (TASK_localCommit ctx) of
             (Inl e, ctx2) \<Rightarrow> (Inl e, ctx2)
           | (Inr u, ctx2) \<Rightarrow>
               (case createGithubTreeAndCommit env ctx2 desiredTree
                       (INPUTS_commitMessage (INPUTS ctx2)) of
                  (Inl e, ctx3) \<Rightarrow> (Inl e, ctx3)
                | (Inr u, ctx3) \<Rightarrow> updateGithubRef env ctx3)))"
  by (cases "getTree env ctx (TASK_localCommit ctx)")
     (auto simp: createGithubVerifiedCommit_def getTree_def Let_def split: sum.splits)

lemma createGithubVerifiedCommit_shape:
  assumes "createGithubVerifiedCommit env ctx = (r, ctx')"
  shows "\<exists>new. extends ctx ctx'
                 ((GitRaw [''ls-tree'', ''-r'', ''--full-tree'', TASK_localCommit ctx],
                   git_raw env [''ls-tree'', ''-r'', ''--full-tree'', TASK_localCommit ctx]) # new)
     \<and> ((\<exists>e. snd (git_raw env [''ls-tree'', ''-r'', ''--full-tree'', TASK_localCommit ctx]) = Inl e
             \<and> r = Inl e \<and> new = [] \<and> keeps ctx ctx')
         \<or> (\<exists>output. snd (git_raw env [''ls-tree'', ''-r'', ''--full-tree'', TASK_localCommit ctx])
                        = Inr output
               \<and> ((\<exists>e. r = Inl e \<and> blobStage ctx new \<and> keeps ctx ctx')
                   \<or> (\<exists>new2 rest. new = new2 @ rest \<and> blobStage ctx new2
                         \<and> list_all (\<lambda>p. \<not> rejected p) (blobPromises new2)
                         \<and> treeStage ctx (parseTree output) rest r ctx'))))"
proof -
  define args where "args = [''ls-tree'', ''-r'', ''--full-tree'', TASK_localCommit ctx]"
  define ctx1 where "ctx1 = issue ctx (GitRaw args) (git_raw env args)"
  have e1: "extends ctx ctx1 [(GitRaw args, git_raw env args)]" and k1: "keeps ctx ctx1"
    by (simp_all add: ctx1_def)
  show ?thesis
  proof (cases "snd (git_raw env args)")
    case (Inl e)
    with assms have "r = Inl e" "ctx' = ctx1"
      by (simp_all add: createGithubVerifiedCommit_def getTree_def Let_def args_def ctx1_def)
    with Inl e1 k1 show ?thesis unfolding args_def [symmetric] by blast
  next
    case (Inr listing)
    obtain r2 ctx2 where b: "createGithubBlobs env ctx1 (TASK_localCommit ctx1) = (r2, ctx2)"
      by (cases "createGithubBlobs env ctx1 (TASK_localCommit ctx1)")
    from createGithubBlobs_shape [OF b] obtain new2 where new2:
      "extends ctx1 ctx2 new2" "keeps ctx1 ctx2" "blobStage ctx1 new2"
      "r2 = Inr () \<longrightarrow> list_all (\<lambda>p. \<not> rejected p) (blobPromises new2)"
      by blast
    have e2: "extends ctx ctx2 ([(GitRaw args, git_raw env args)] @ new2)"
      using extends_trans [OF e1 new2(1)] .
    have k2: "keeps ctx ctx2" using keeps_trans [OF k1 new2(2)] .
    have b2: "blobStage ctx new2"
      using new2(3) blobStage_REPO [of ctx1 ctx] by (simp add: ctx1_def)
    show ?thesis
    proof (cases r2)
      case (Inl e)
      with assms Inr b have "r = Inl e" "ctx' = ctx2"
        by (simp_all add: createGithubVerifiedCommit_def getTree_def Let_def args_def ctx1_def)
      with Inr e2 k2 b2 show ?thesis unfolding args_def [symmetric] by auto
    next
      case ok: (Inr u)
      from assms Inr b ok
      have "(case createGithubTreeAndCommit env ctx2 (parseTree listing)
                    (INPUTS_commitMessage (INPUTS ctx2)) of
               (Inl e, ctx3) \<Rightarrow> (Inl e, ctx3)
             | (Inr u, ctx3) \<Rightarrow> updateGithubRef env ctx3) = (r, ctx')"
        by (simp add: createGithubVerifiedCommit_def getTree_def Let_def args_def ctx1_def)
      from tree_commit_update [OF this] obtain rest where rest:
        "extends ctx2 ctx' rest" "treeStage ctx2 (parseTree listing) rest r ctx'"
        by blast
      have "extends ctx ctx' ((GitRaw args, git_raw env args) # (new2 @ rest))"
        using extends_trans [OF e2 rest(1)] by simp
      moreover have "treeStage ctx (parseTree listing) rest r ctx'"
        using rest(2) treeStage_cong [OF e2 k2] by simp
      moreover have "list_all (\<lambda>p. \<not> rejected p) (blobPromises new2)"
        using new2(4) ok by simp
      ultimately show ?thesis using Inr b2 unfolding args_def [symmetric] by blast
    qed
  qed
qed

lemma pipeline_calls:
  assumes "createGithubVerifiedCommit env ctx = (r, ctx')"
  shows "\<exists>new. extends ctx ctx' new
           \<and> (\<forall>c p. (c, p) \<in> set new \<longrightarrow> \<not> isCreateRef c
                 \<and> (isRemote c \<longrightarrow> owner_of c = REPO_owner (REPO ctx)
                                    \<and> repo_of c = REPO_repo (REPO ctx)))"
proof -
  from createGithubVerifiedCommit_shape [OF assms] obtain new where
    e: "extends ctx ctx'
          ((GitRaw [''ls-tree'', ''-r'', ''--full-tree'', TASK_localCommit ctx],
            git_raw env [''ls-tree'', ''-r'', ''--full-tree'', TASK_localCommit ctx]) # new)"
    and d: "new = [] \<or> blobStage ctx new
            \<or> (\<exists>new2 rest tree. new = new2 @ rest \<and> blobStage ctx new2
                  \<and> treeStage ctx tree rest r ctx')"
    by blast
  have "\<forall>c p. (c, p) \<in> set new \<longrightarrow> \<not> isCreateRef c
          \<and> (isRemote c \<longrightarrow> owner_of c = REPO_owner (REPO ctx) \<and> repo_of c = REPO_repo (REPO ctx))"
    using d
  proof (elim disjE exE conjE)
    assume "new = []"
    then show ?thesis by simp
  next
    assume "blobStage ctx new"
    then show ?thesis using blobStage_calls by blast
  next
    fix new2 rest tree
    assume "new = new2 @ rest" "blobStage ctx new2" "treeStage ctx tree rest r ctx'"
    then show ?thesis using blobStage_calls treeStage_calls by (metis Un_iff set_append)
  qed
  with e show ?thesis by (intro exI [of _ "_ # new"]) auto
qed

lemma pipeline_split:
  assumes "createGithubVerifiedCommit env ctx = (r, ctx')"
  shows "\<exists>new2 rest.
           extends ctx ctx'
             ((GitRaw [''ls-tree'', ''-r'', ''--full-tree'', TASK_localCommit ctx],
               git_raw env [''ls-tree'', ''-r'', ''--full-tree'', TASK_localCommit ctx])
              # new2 @ rest)
           \<and> blobStage ctx new2
           \<and> ((rest = [] \<and> keeps ctx ctx' \<and> (\<exists>e. r = Inl e))
               \<or> (\<exists>listing.
                     snd (git_raw env [''ls-tree'', ''-r'', ''--full-tree'', TASK_localCommit ctx])
                       = Inr listing
                     \<and> list_all (\<lambda>p. \<not> rejected p) (blobPromises new2)
                     \<and> treeStage ctx (parseTree listing) rest r ctx'))"
proof -
  from createGithubVerifiedCommit_shape [OF assms] obtain new where
    e: "extends ctx ctx'
          ((GitRaw [''ls-tree'', ''-r'', ''--full-tree'', TASK_localCommit ctx],
            git_raw env [''ls-tree'', ''-r'', ''--full-tree'', TASK_localCommit ctx]) # new)"
    and d: "(\<exists>e. r = Inl e \<and> new = [] \<and> keeps ctx ctx')
         \<or> (\<exists>e. r = Inl e \<and> blobStage ctx new \<and> keeps ctx ctx')
         \<or> (\<exists>listing new2 rest.
               snd (git_raw env [''ls-tree'', ''-r'', ''--full-tree'', TASK_localCommit ctx])
                 = Inr listing
               \<and> new = new2 @ rest \<and> blobStage ctx new2
               \<and> list_all (\<lambda>p. \<not> rejected p) (blobPromises new2)
               \<and> treeStage ctx (parseTree listing) rest r ctx')"
    by blast
  from d show ?thesis
  proof (elim disjE exE conjE)
    fix e
    assume "r = Inl e" "new = []" "keeps ctx ctx'"
    with e show ?thesis by (intro exI [of _ "[]"]) simp
  next
    fix e
    assume "r = Inl e" "blobStage ctx new" "keeps ctx ctx'"
    with e show ?thesis by (intro exI [of _ new] exI [of _ "[]"]) simp
  next
    fix listing new2 rest
    assume "snd (git_raw env [''ls-tree'', ''-r'', ''--full-tree'', TASK_localCommit ctx])
              = Inr listing"
      "new = new2 @ rest" "blobStage ctx new2"
      "list_all (\<lambda>p. \<not> rejected p) (blobPromises new2)"
      "treeStage ctx (parseTree listing) rest r ctx'"
    with e show ?thesis by (intro exI [of _ new2] exI [of _ rest]) auto
  qed
qed

lemma pipeline_facts:
  assumes "createGithubVerifiedCommit env ctx = (r, ctx')"
  shows "\<exists>new. extends ctx ctx' new
     \<and> ((CreateTree ow rp t, p) \<in> set new \<longrightarrow>
           snd (fst (getTree env ctx0 (TASK_localCommit ctx))) = Inr t)
     \<and> (list_ex (\<lambda>cp. isCreateTree (fst cp) \<or> isCreateCommit (fst cp) \<or> isUpdateRef (fst cp)) new
           \<longrightarrow> list_all (\<lambda>p. \<not> rejected p) (blobPromises new))
     \<and> ((CreateCommit ow rp m ps ts, p) \<in> set new \<longrightarrow>
           ps = [TASK_lastCommitSha ctx]
           \<and> (rejected p \<longrightarrow> keeps ctx ctx')
           \<and> (\<forall>v. snd p = Inr v \<longrightarrow>
                 TASK_lastCommitSha ctx' = v \<and> overwrites ctx' = overwrites ctx + 1))
     \<and> ((UpdateRef ow rp ref s f, p) \<in> set new \<longrightarrow>
           ref = ''heads/'' @ TASK_branch ctx \<and> s = TASK_lastCommitSha ctx' \<and> f
           \<and> overwrites ctx' = overwrites ctx + 1)
     \<and> (keeps ctx ctx'
         \<or> (overwrites ctx' = overwrites ctx + 1
             \<and> (\<exists>ow rp m ps t tm. (CreateCommit ow rp m ps t, (tm, Inr (TASK_lastCommitSha ctx')))
                                     \<in> set new)))
     \<and> (list_ex rejected (blobPromises new) \<longrightarrow> (\<exists>e. r = Inl e))
     \<and> blobPromises (dropWhile (\<lambda>cp. \<not> isCreateTree (fst cp)) new) = []"
proof -
  define args where "args = [''ls-tree'', ''-r'', ''--full-tree'', TASK_localCommit ctx]"
  from pipeline_split [OF assms] obtain new2 rest where
    e: "extends ctx ctx' ((GitRaw args, git_raw env args) # new2 @ rest)"
    and b: "blobStage ctx new2"
    and d: "(rest = [] \<and> keeps ctx ctx' \<and> (\<exists>e. r = Inl e))
            \<or> (\<exists>listing. snd (git_raw env args) = Inr listing
                  \<and> list_all (\<lambda>p. \<not> rejected p) (blobPromises new2)
                  \<and> treeStage ctx (parseTree listing) rest r ctx')"
    unfolding args_def by blast
  let ?new = "(GitRaw args, git_raw env args) # new2 @ rest"
  have nb: "\<And>c p. (c, p) \<in> set new2 \<Longrightarrow>
              \<not> isCreateTree c \<and> \<not> isCreateCommit c \<and> \<not> isUpdateRef c"
    using blobStage_calls [OF b] by blast
  have dw: "dropWhile (\<lambda>cp. \<not> isCreateTree (fst cp)) ?new
              = dropWhile (\<lambda>cp. \<not> isCreateTree (fst cp)) rest"
    using blobStage_dropWhile [OF b] by simp
  from d show ?thesis
  proof (elim disjE exE conjE)
    fix e
    assume h: "rest = []" "keeps ctx ctx'" "r = Inl e"
    have "\<not> list_ex (\<lambda>cp. isCreateTree (fst cp) \<or> isCreateCommit (fst cp) \<or> isUpdateRef (fst cp)) ?new"
      using nb h(1) by (auto simp: list_ex_iff)
    moreover have "(CreateTree ow rp t, p) \<notin> set ?new"
      "(CreateCommit ow rp m ps ts, p) \<notin> set ?new" "(UpdateRef ow rp ref s f, p) \<notin> set ?new"
      using nb h(1) by fastforce+
    moreover have "blobPromises (dropWhile (\<lambda>cp. \<not> isCreateTree (fst cp)) ?new) = []"
      unfolding dw using h(1) by simp
    ultimately show ?thesis using e h(2,3) by (intro exI [of _ ?new]) blast
  next
    fix listing
    assume h: "snd (git_raw env args) = Inr listing"
      "list_all (\<lambda>p. \<not> rejected p) (blobPromises new2)"
      "treeStage ctx (parseTree listing) rest r ctx'"
    note tf = treeStage_facts [OF h(3)]
    have g: "snd (fst (getTree env ctx0 (TASK_localCommit ctx))) = Inr (parseTree listing)"
      using h(1) by (simp add: getTree_promise args_def)
    have bp: "blobPromises ?new = blobPromises new2"
      using treeStage_blobPromises [OF h(3)] by simp
    have 1: "(CreateTree ow rp t, p) \<in> set ?new \<longrightarrow>
               snd (fst (getTree env ctx0 (TASK_localCommit ctx))) = Inr t"
      using tf(1) [of ow rp t p] nb g by fastforce
    have 2: "list_all (\<lambda>p. \<not> rejected p) (blobPromises ?new)"
      unfolding bp using h(2) .
    have 3: "(CreateCommit ow rp m ps ts, p) \<in> set ?new \<longrightarrow>
           ps = [TASK_lastCommitSha ctx]
           \<and> (rejected p \<longrightarrow> keeps ctx ctx')
           \<and> (\<forall>v. snd p = Inr v \<longrightarrow>
                 TASK_lastCommitSha ctx' = v \<and> overwrites ctx' = overwrites ctx + 1)"
      using tf(2) [of ow rp m ps ts p] nb by fastforce
    have 4: "(UpdateRef ow rp ref s f, p) \<in> set ?new \<longrightarrow>
           ref = ''heads/'' @ TASK_branch ctx \<and> s = TASK_lastCommitSha ctx' \<and> f
           \<and> overwrites ctx' = overwrites ctx + 1"
      using tf(3) [of ow rp ref s f p] nb by fastforce
    have 5: "keeps ctx ctx'
         \<or> (overwrites ctx' = overwrites ctx + 1
             \<and> (\<exists>ow rp m ps t tm. (CreateCommit ow rp m ps t, (tm, Inr (TASK_lastCommitSha ctx')))
                                     \<in> set ?new))"
      using tf(4) by fastforce
    have 6: "\<not> list_ex rejected (blobPromises ?new)"
      using 2 by (auto simp: list_ex_iff list_all_iff)
    have "blobPromises rest = []" using treeStage_blobPromises [OF h(3)] .
    then have "\<forall>c p. (c, p) \<in> set rest \<longrightarrow> \<not> isCreateBlob c"
      using treeStage_calls [OF h(3)] by blast
    then have "\<forall>c p. (c, p) \<in> set (dropWhile (\<lambda>cp. \<not> isCreateTree (fst cp)) rest)
                 \<longrightarrow> \<not> isCreateBlob c"
      using set_dropWhileD by fast
    then have 7: "blobPromises (dropWhile (\<lambda>cp. \<not> isCreateTree (fst cp)) ?new) = []"
      unfolding dw by (rule blobPromises_none)
    show ?thesis using e 1 2 3 4 5 6 7 by (intro exI [of _ ?new]) blast
  qed
qed


section \<open>The run\<close>

lemma prepared_simps [simp]:
  "trace (prepared env inp r) = []"
  "INPUTS (prepared env inp r) = inp"
  "PATH (prepared env inp r) = path_resolve env (INPUTS_path inp)"
  "REPO (prepared env inp r) = r"
  "TASK_lastCommitSha (prepared env inp r) = REPO_sha r"
  "TASK_branch (prepared env inp r) = target_branch inp r"
  "overwrites (prepared env inp r) = 0"
  by (simp_all add: prepared_def CONTEXT_def)

lemma run_stopped:
  "getInputs env = Inl e \<Longrightarrow> run env = (Inl e, CONTEXT)"
  "getInputs env = Inr inp \<Longrightarrow> identifyRepository env = Inl e \<Longrightarrow>
     fst (run env) = Inl e \<and> trace (snd (run env)) = [] \<and> overwrites (snd (run env)) = 0"
  "getInputs env = Inr inp \<Longrightarrow> identifyRepository env = Inr r \<Longrightarrow>
     git_status_isClean env = Inl e \<Longrightarrow>
     fst (run env) = Inl e \<and> trace (snd (run env)) = [] \<and> overwrites (snd (run env)) = 0
     \<and> TASK_lastCommitSha (snd (run env)) = REPO_sha r"
  "getInputs env = Inr inp \<Longrightarrow> identifyRepository env = Inr r \<Longrightarrow>
     git_status_isClean env = Inr True \<Longrightarrow> run env = (Inr (), prepared env inp r)"
  by (simp_all add: run_def Let_def prepared_def CONTEXT_def)

lemma run_unprepared:
  "\<not> (\<exists>inp r. getInputs env = Inr inp \<and> identifyRepository env = Inr r) \<Longrightarrow>
     trace (snd (run env)) = []"
proof (cases "getInputs env")
  case (Inl e)
  then show ?thesis by (simp add: run_stopped(1) CONTEXT_def)
next
  case inp: (Inr inp')
  assume "\<not> (\<exists>inp r. getInputs env = Inr inp \<and> identifyRepository env = Inr r)"
  with inp obtain e where "identifyRepository env = Inl e"
    by (cases "identifyRepository env") auto
  with inp show ?thesis by (simp add: run_stopped(2))
qed

text \<open>The context of \<open>run\<close> after the Branch Ensurer, when it has not failed.\<close>

lemma run_working:
  assumes "getInputs env = Inr inp" "identifyRepository env = Inr r"
    "git_status_isClean env = Inr False" "run env = (res, ctx')"
  defines "c \<equiv> CreateRef (REPO_owner r) (REPO_repo r) (REPO_sha r)
                 (''refs/heads/'' @ target_branch inp r)"
  defines "pre \<equiv> (if target_branch inp r \<noteq> REPO_branch r then [(c, octokit env 0 c)] else [])"
  defines "pc \<equiv> git_add_commit env ''./*'' ''local commit''"
  shows "(\<exists>e. target_branch inp r \<noteq> REPO_branch r \<and> snd (octokit env 0 c) = Inl e
            \<and> instanceof_Error e \<and> message e \<noteq> ''Reference already exists''
            \<and> res = Inl e \<and> ctx' = (prepared env inp r)\<lparr>trace := pre\<rparr>)
       \<or> (\<exists>e. snd pc = Inl e \<and> res = Inl e
            \<and> ctx' = (prepared env inp r)
                       \<lparr>trace := pre @ [(GitAddCommit ''./*'' ''local commit'', pc)]\<rparr>)
       \<or> (\<exists>commit. snd pc = Inr commit
            \<and> createGithubVerifiedCommit env
                 ((prepared env inp r)
                    \<lparr>TASK_localCommit := replace ''HEAD '' [] commit,
                     trace := pre @ [(GitAddCommit ''./*'' ''local commit'', pc)]\<rparr>)
               = (res, ctx'))"
proof (cases "target_branch inp r \<noteq> REPO_branch r")
  case False
  with assms(1-4) show ?thesis
    unfolding pre_def pc_def
    by (cases "snd (git_add_commit env ''./*'' ''local commit'')")
       (auto simp: run_def Let_def prepared_def CONTEXT_def issue_def)
next
  case True
  show ?thesis
  proof (cases "snd (octokit env 0 c)")
    case (Inr v)
    with True assms(1-4) show ?thesis
      unfolding pre_def pc_def c_def
      by (cases "snd (git_add_commit env ''./*'' ''local commit'')")
         (auto simp: run_def Let_def prepared_def CONTEXT_def issue_def createRemoteBranch_def)
  next
    case (Inl e)
    with True assms(1-4) show ?thesis
      unfolding pre_def pc_def c_def
      by (cases "snd (git_add_commit env ''./*'' ''local commit'')")
         (auto simp: run_def Let_def prepared_def CONTEXT_def issue_def createRemoteBranch_def
               split: if_splits)
  qed
qed

text \<open>Every run that has identified the repository: what its log holds, and what it
  leaves of the remote commit state.\<close>

lemma run_facts:
  assumes i: "getInputs env = Inr inp" and r: "identifyRepository env = Inr r"
    and run: "run env = (res, ctx')"
  shows "((c, q) \<in> set (trace ctx') \<and> isRemote c \<longrightarrow>
            owner_of c = REPO_owner r \<and> repo_of c = REPO_repo r)
     \<and> ((CreateTree ow rp t, p) \<in> set (trace ctx') \<longrightarrow>
           snd (fst (getTree env ctx0 (TASK_localCommit ctx'))) = Inr t)
     \<and> (list_ex (\<lambda>cp. isCreateTree (fst cp) \<or> isCreateCommit (fst cp) \<or> isUpdateRef (fst cp))
           (trace ctx')
           \<longrightarrow> list_all (\<lambda>p. \<not> rejected p) (blobPromises (trace ctx')))
     \<and> ((CreateCommit ow rp m ps ts, p) \<in> set (trace ctx') \<longrightarrow>
           ps = [REPO_sha r]
           \<and> (rejected p \<longrightarrow> overwrites ctx' = 0)
           \<and> (\<forall>v. snd p = Inr v \<longrightarrow> TASK_lastCommitSha ctx' = v \<and> overwrites ctx' = 1))
     \<and> ((UpdateRef ow rp ref s f, p) \<in> set (trace ctx') \<longrightarrow>
           ref = ''heads/'' @ target_branch inp r \<and> s = TASK_lastCommitSha ctx' \<and> f
           \<and> overwrites ctx' = 1)
     \<and> ((TASK_lastCommitSha ctx' = REPO_sha r \<and> overwrites ctx' = 0)
         \<or> (overwrites ctx' = 1
             \<and> (\<exists>ow rp m ps t tm. (CreateCommit ow rp m ps t, (tm, Inr (TASK_lastCommitSha ctx')))
                                     \<in> set (trace ctx'))))
     \<and> (list_ex rejected (blobPromises (trace ctx')) \<longrightarrow> (\<exists>e. res = Inl e))
     \<and> blobPromises (dropWhile (\<lambda>cp. \<not> isCreateTree (fst cp)) (trace ctx')) = []"
proof -
  have stopped: ?thesis if "trace ctx' = []" "TASK_lastCommitSha ctx' = REPO_sha r" "overwrites ctx' = 0"
    using that by simp
  show ?thesis
  proof (cases "git_status_isClean env")
    case (Inl e)
    from run_stopped(3) [OF i r Inl] run show ?thesis by (intro stopped) simp_all
  next
    case (Inr isClean)
    show ?thesis
    proof (cases isClean)
      case True
      with Inr run_stopped(4) [OF i r] run have "ctx' = prepared env inp r" by simp
      then show ?thesis by (intro stopped) simp_all
    next
      case False
      define c0 where "c0 = CreateRef (REPO_owner r) (REPO_repo r) (REPO_sha r)
                              (''refs/heads/'' @ target_branch inp r)"
      define pre where "pre = (if target_branch inp r \<noteq> REPO_branch r
                               then [(c0, octokit env 0 c0)] else [])"
      define pc where "pc = git_add_commit env ''./*'' ''local commit''"
      have pre: "pre = [] \<or> pre = [(c0, octokit env 0 c0)]" by (simp add: pre_def)
      from False Inr have d: "git_status_isClean env = Inr False" by simp
      from run_working [OF i r d run, folded c0_def, folded pre_def pc_def]
      show ?thesis
      proof (elim disjE exE conjE)
        fix e
        assume "res = Inl e" "ctx' = (prepared env inp r)\<lparr>trace := pre\<rparr>"
        with pre show ?thesis by (auto simp: c0_def)
      next
        fix e
        assume "res = Inl e"
          "ctx' = (prepared env inp r)\<lparr>trace := pre @ [(GitAddCommit ''./*'' ''local commit'', pc)]\<rparr>"
        with pre show ?thesis by (auto simp: c0_def)
      next
        fix commit
        define ctx5 where "ctx5 = (prepared env inp r)
                    \<lparr>TASK_localCommit := replace ''HEAD '' [] commit,
                     trace := pre @ [(GitAddCommit ''./*'' ''local commit'', pc)]\<rparr>"
        assume "createGithubVerifiedCommit env
                 ((prepared env inp r)
                    \<lparr>TASK_localCommit := replace ''HEAD '' [] commit,
                     trace := pre @ [(GitAddCommit ''./*'' ''local commit'', pc)]\<rparr>)
               = (res, ctx')"
        then have V: "createGithubVerifiedCommit env ctx5 = (res, ctx')" by (simp add: ctx5_def)
        have c5: "trace ctx5 = pre @ [(GitAddCommit ''./*'' ''local commit'', pc)]"
          "REPO ctx5 = r" "TASK_lastCommitSha ctx5 = REPO_sha r" "overwrites ctx5 = 0"
          "TASK_branch ctx5 = target_branch inp r"
          by (simp_all add: ctx5_def)
        from pipeline_calls [OF V] obtain new1 where n1:
          "extends ctx5 ctx' new1"
          "\<forall>c p. (c, p) \<in> set new1 \<longrightarrow> (isRemote c \<longrightarrow> owner_of c = REPO_owner r \<and> repo_of c = REPO_repo r)"
          using c5(2) by auto
        from pipeline_facts [OF V, of ow rp t p ctx0 m ps ts ref s f] obtain new where n:
          "extends ctx5 ctx' new"
          "(CreateTree ow rp t, p) \<in> set new \<longrightarrow>
             snd (fst (getTree env ctx0 (TASK_localCommit ctx5))) = Inr t"
          "list_ex (\<lambda>cp. isCreateTree (fst cp) \<or> isCreateCommit (fst cp) \<or> isUpdateRef (fst cp)) new
             \<longrightarrow> list_all (\<lambda>p. \<not> rejected p) (blobPromises new)"
          "(CreateCommit ow rp m ps ts, p) \<in> set new \<longrightarrow>
             ps = [TASK_lastCommitSha ctx5]
             \<and> (rejected p \<longrightarrow> keeps ctx5 ctx')
             \<and> (\<forall>v. snd p = Inr v \<longrightarrow>
                   TASK_lastCommitSha ctx' = v \<and> overwrites ctx' = overwrites ctx5 + 1)"
          "(UpdateRef ow rp ref s f, p) \<in> set new \<longrightarrow>
             ref = ''heads/'' @ TASK_branch ctx5 \<and> s = TASK_lastCommitSha ctx' \<and> f
             \<and> overwrites ctx' = overwrites ctx5 + 1"
          "keeps ctx5 ctx'
           \<or> (overwrites ctx' = overwrites ctx5 + 1
               \<and> (\<exists>ow rp m ps t tm. (CreateCommit ow rp m ps t, (tm, Inr (TASK_lastCommitSha ctx')))
                                       \<in> set new))"
          "list_ex rejected (blobPromises new) \<longrightarrow> (\<exists>e. res = Inl e)"
          "blobPromises (dropWhile (\<lambda>cp. \<not> isCreateTree (fst cp)) new) = []"
          by blast
        have same: "new1 = new" using n1(1) n(1) by (simp add: extends_def)
        have tr: "trace ctx' = (pre @ [(GitAddCommit ''./*'' ''local commit'', pc)]) @ new"
          and lc: "TASK_localCommit ctx' = TASK_localCommit ctx5"
          using n(1) c5(1) by (simp_all add: extends_def)
        have inpre: "\<And>c p. (c, p) \<in> set (pre @ [(GitAddCommit ''./*'' ''local commit'', pc)]) \<Longrightarrow>
                       \<not> isCreateTree c \<and> \<not> isCreateCommit c \<and> \<not> isUpdateRef c \<and> \<not> isCreateBlob c
                       \<and> (isRemote c \<longrightarrow> owner_of c = REPO_owner r \<and> repo_of c = REPO_repo r)"
          using pre by (auto simp: c0_def)
        have bp: "blobPromises (trace ctx') = blobPromises new"
          unfolding tr using blobPromises_none [of "pre @ [(GitAddCommit ''./*'' ''local commit'', pc)]"] inpre
          by simp
        have dw: "dropWhile (\<lambda>cp. \<not> isCreateTree (fst cp)) (trace ctx')
                   = dropWhile (\<lambda>cp. \<not> isCreateTree (fst cp)) new"
          unfolding tr by (rule dropWhile_append2) (use inpre in fastforce)
        have ex: "list_ex (\<lambda>cp. isCreateTree (fst cp) \<or> isCreateCommit (fst cp) \<or> isUpdateRef (fst cp))
                    (trace ctx')
                  = list_ex (\<lambda>cp. isCreateTree (fst cp) \<or> isCreateCommit (fst cp) \<or> isUpdateRef (fst cp)) new"
          unfolding tr using inpre by (fastforce simp: list_ex_iff)
        have 1: "(c, q) \<in> set (trace ctx') \<and> isRemote c \<longrightarrow>
                   owner_of c = REPO_owner r \<and> repo_of c = REPO_repo r"
          unfolding tr using inpre [of c q] n1(2) [rule_format, of c q] same
          by (metis Un_iff set_append)
        have 2: "(CreateTree ow rp t, p) \<in> set (trace ctx') \<longrightarrow>
                   snd (fst (getTree env ctx0 (TASK_localCommit ctx'))) = Inr t"
          unfolding tr lc using inpre [of "CreateTree ow rp t" p] n(2) by auto
        have 4: "(CreateCommit ow rp m ps ts, p) \<in> set (trace ctx') \<longrightarrow>
           ps = [REPO_sha r]
           \<and> (rejected p \<longrightarrow> overwrites ctx' = 0)
           \<and> (\<forall>v. snd p = Inr v \<longrightarrow> TASK_lastCommitSha ctx' = v \<and> overwrites ctx' = 1)"
          unfolding tr using inpre [of "CreateCommit ow rp m ps ts" p] n(4) c5
          by (auto simp: keeps_def)
        have 5: "(UpdateRef ow rp ref s f, p) \<in> set (trace ctx') \<longrightarrow>
           ref = ''heads/'' @ target_branch inp r \<and> s = TASK_lastCommitSha ctx' \<and> f
           \<and> overwrites ctx' = 1"
          unfolding tr using inpre [of "UpdateRef ow rp ref s f" p] n(5) c5 by auto
        have 6: "(TASK_lastCommitSha ctx' = REPO_sha r \<and> overwrites ctx' = 0)
         \<or> (overwrites ctx' = 1
             \<and> (\<exists>ow rp m ps t tm. (CreateCommit ow rp m ps t, (tm, Inr (TASK_lastCommitSha ctx')))
                                     \<in> set (trace ctx')))"
          using n(6)
        proof (elim disjE exE conjE)
          assume "keeps ctx5 ctx'"
          with c5 show ?thesis by (simp add: keeps_def)
        next
          fix ow' rp' m' ps' t' tm
          assume "overwrites ctx' = overwrites ctx5 + 1"
            "(CreateCommit ow' rp' m' ps' t', (tm, Inr (TASK_lastCommitSha ctx'))) \<in> set new"
          then have "overwrites ctx' = 1"
            "(CreateCommit ow' rp' m' ps' t', (tm, Inr (TASK_lastCommitSha ctx')))
               \<in> set (trace ctx')"
            using c5 tr by simp_all
          then show ?thesis by blast
        qed
        show ?thesis
          unfolding bp dw ex by (intro conjI 1 2 n(3) 4 5 6 n(7) n(8))
      qed
    qed
  qed
qed


section \<open>The example runs\<close>

lemma scenario_prelude:
  "getInputs env_scenario = Inr inputs_scenario"
  "identifyRepository env_scenario = Inr repository_scenario"
  "getInputs env_clean = Inr inputs_scenario"
  "identifyRepository env_clean = Inr repository_scenario"
  "getInputs env_bot = Inr (inputs_scenario\<lparr>INPUTS_branch := ''bot''\<rparr>)"
  "identifyRepository env_bot = Inr repository_scenario"
  by (simp_all add: getInputs_def identifyRepository_def env_clean_def env_bot_def
        env_scenario_def inputs_scenario_def repository_scenario_def owner_repo_def
        url_segments_def slice_def replace_git_suffix_def trimEnd_def isWhiteSpace_def at_def)

lemmas run_defs =
  run_def getInputs_def identifyRepository_def owner_repo_def url_segments_def slice_def
  replace_git_suffix_def trimEnd_def isWhiteSpace_def at_def target_branch_def
  createRemoteBranch_def createGithubVerifiedCommit_def getTree_def parseTree_def
  tree_entry_of_def createGithubBlobs_def Promise_all_def findIndex_def
  getBlobBase64Content_def createGithubTreeAndCommit_def updateGithubRef_def issue_def
  CONTEXT_def Let_def ls_tree_line_def

lemma run_env_scenario:
  "fst (run env_scenario) = Inr ()"
  "trace (snd (run env_scenario)) =
     [(GitAddCommit ''./*'' ''local commit'', (0, Inr ''HEAD c9'')),
      (GitRaw [''ls-tree'', ''-r'', ''--full-tree'', ''c9''],
       (2, Inr (ls_tree_line ''100644'' ''blob'' ''a1'' ''x.txt''
                @ ls_tree_line ''100644'' ''blob'' ''b2'' ''y.txt''))),
      (GitRaw [''ls-tree'', ''-r'', ''--full-tree'', ''c9~1''],
       (1, Inr (ls_tree_line ''100644'' ''blob'' ''a1'' ''x.txt''))),
      (GitRaw [''ls-tree'', ''-r'', ''--full-tree'', ''c9''],
       (2, Inr (ls_tree_line ''100644'' ''blob'' ''a1'' ''x.txt''
                @ ls_tree_line ''100644'' ''blob'' ''b2'' ''y.txt''))),
      (ReadFile ''/work/y.txt'', (3, Inr ''eQo='')),
      (CreateBlob (Some ''alvarezfr'') (Some ''action-verified-commit'') ''eQo='' ''base64'',
       (5, Inr ''b2'')),
      (CreateTree (Some ''alvarezfr'') (Some ''action-verified-commit'') [entry_x, entry_y],
       (6, Inr ''t7'')),
      (CreateCommit (Some ''alvarezfr'') (Some ''action-verified-commit'') ''Automated commit''
         [''a0''] ''t7'', (7, Inr ''c10'')),
      (UpdateRef (Some ''alvarezfr'') (Some ''action-verified-commit'') ''heads/main'' ''c10''
         True, (8, Inr ''b2''))]"
  "TASK_lastCommitSha (snd (run env_scenario)) = ''c10''"
  "overwrites (snd (run env_scenario)) = 1"
  by (simp_all add: run_defs env_scenario_def entry_x_def entry_y_def)

lemma run_env_no_upload:
  "fst (run env_no_upload) = Inr ()"
  "trace (snd (run env_no_upload)) =
     [(GitAddCommit ''./*'' ''local commit'', (0, Inr ''HEAD c9'')),
      (GitRaw [''ls-tree'', ''-r'', ''--full-tree'', ''c9''],
       (1, Inr (ls_tree_line ''100644'' ''blob'' ''a1'' ''x.txt''))),
      (GitRaw [''ls-tree'', ''-r'', ''--full-tree'', ''c9~1''],
       (1, Inr (ls_tree_line ''100644'' ''blob'' ''a1'' ''x.txt''))),
      (GitRaw [''ls-tree'', ''-r'', ''--full-tree'', ''c9''],
       (1, Inr (ls_tree_line ''100644'' ''blob'' ''a1'' ''x.txt''))),
      (CreateTree (Some ''alvarezfr'') (Some ''action-verified-commit'') [entry_x],
       (4, Inr ''t7'')),
      (CreateCommit (Some ''alvarezfr'') (Some ''action-verified-commit'') ''Automated commit''
         [''a0''] ''t7'', (5, Inr ''c10'')),
      (UpdateRef (Some ''alvarezfr'') (Some ''action-verified-commit'') ''heads/main'' ''c10''
         True, (6, Inr ''b2''))]"
  "TASK_localCommit (snd (run env_no_upload)) = ''c9''"
  by (simp_all add: run_defs env_no_upload_def env_scenario_def entry_x_def)


section \<open>The claims\<close>

subsection \<open>C1: the Blob Differ\<close>

text \<open>
  C1. The entries the Blob Differ selects for upload are exactly the entries of the target
  snapshot whose content identifier is the content identifier of no entry of the parent
  snapshot, in the order of the target snapshot. The selection is a function of the two
  snapshots alone, so the same snapshots give the same sequence. When the loop of
  \<open>createGithubBlobs\<close> completes, it has read one file and issued one blob creation
  for each selected entry, in that order.
\<close>

theorem blob_differ_selects_new_content:
  "uploadTasks P T = filter (\<lambda>e. sha e \<notin> sha ` set P) T
   \<and> set (uploadTasks P T) = {e \<in> set T. sha e \<notin> sha ` set P}
   \<and> (createGithubBlobs_loop env P T [] ctx = (Inr promises, ctx') \<longrightarrow>
        (\<exists>new. trace ctx' = trace ctx @ new
           \<and> map Some (filesRead new)
               = map (\<lambda>e. map_option (path_join env (PATH ctx)) (path e)) (uploadTasks P T)
           \<and> blobPromises new = promises
           \<and> length promises = length (uploadTasks P T)))"
proof (intro conjI impI)
  show "uploadTasks P T = filter (\<lambda>e. sha e \<notin> sha ` set P) T" by (rule uploadTasks_filter)
  show "set (uploadTasks P T) = {e \<in> set T. sha e \<notin> sha ` set P}"
    by (simp add: uploadTasks_filter)
next
  assume "createGithubBlobs_loop env P T [] ctx = (Inr promises, ctx')"
  from loop_tasks [OF this] show "\<exists>new. trace ctx' = trace ctx @ new
           \<and> map Some (filesRead new)
               = map (\<lambda>e. map_option (path_join env (PATH ctx)) (path e)) (uploadTasks P T)
           \<and> blobPromises new = promises
           \<and> length promises = length (uploadTasks P T)"
    by (auto simp: extends_def)
qed

theorem blob_differ_witness:
  "fst (createGithubBlobs_loop env_scenario [entry_x] [entry_x, entry_y] [] CONTEXT)
     = Inr [(1, Inr ''b2'')]
   \<and> uploadTasks [entry_x] [entry_x, entry_y] = [entry_y]
   \<and> filesRead (trace (snd (createGithubBlobs_loop env_scenario [entry_x] [entry_x, entry_y]
                               [] CONTEXT))) = [''/y.txt'']"
proof -
  define res where "res = createGithubBlobs_loop env_scenario [entry_x] [entry_x, entry_y] [] CONTEXT"
  have loop: "res = (Inr [(1, Inr ''b2'')], snd res)"
    unfolding res_def
    by (simp add: env_scenario_def entry_x_def entry_y_def findIndex_def
          getBlobBase64Content_def CONTEXT_def issue_def Let_def)
  have e: "trace CONTEXT = []" "PATH CONTEXT = []" by (simp_all add: CONTEXT_def)
  from loop blob_differ_selects_new_content
         [of "[entry_x]" "[entry_x, entry_y]" env_scenario CONTEXT "[(1, Inr ''b2'')]" "snd res"]
  obtain new where new: "trace (snd res) = trace CONTEXT @ new"
    "map Some (filesRead new)
       = map (\<lambda>e. map_option (path_join env_scenario (PATH CONTEXT)) (path e))
           (uploadTasks [entry_x] [entry_x, entry_y])"
    and f: "uploadTasks [entry_x] [entry_x, entry_y]
          = filter (\<lambda>e. sha e \<notin> sha ` set [entry_x]) [entry_x, entry_y]"
    unfolding res_def by blast
  have t: "uploadTasks [entry_x] [entry_x, entry_y] = [entry_y]"
    unfolding f by (simp add: entry_x_def entry_y_def)
  have "map Some (filesRead new) = [Some ''/y.txt'']"
    using new(2) unfolding t e by (simp add: entry_y_def env_scenario_def)
  then have "filesRead new = [''/y.txt'']" by auto
  then have "filesRead (trace (snd res)) = [''/y.txt'']" using new(1) e by simp
  moreover have "fst res = Inr [(1, Inr ''b2'')]" using loop by (metis fst_conv)
  ultimately show ?thesis using t unfolding res_def by blast
qed

subsection \<open>C2: the tree creation receives the whole snapshot\<close>

text \<open>
  C2. Every tree creation of a run receives the snapshot that the Tree Reader returns
  for the local commit, whole: the list of its entries, each with its mode, type,
  content identifier and path. Whenever the uploads of \<open>createGithubVerifiedCommit\<close>
  complete, whatever their number, the tree creation is called with that snapshot.
\<close>

theorem tree_creation_receives_full_snapshot:
  "((CreateTree ow rp tree, p) \<in> set (trace (snd (run env))) \<longrightarrow>
      snd (fst (getTree env ctx0 (TASK_localCommit (snd (run env))))) = Inr tree)
   \<and> (snd (fst (getTree env ctx (TASK_localCommit ctx))) = Inr tree
       \<and> fst (createGithubBlobs env (snd (getTree env ctx (TASK_localCommit ctx)))
                (TASK_localCommit ctx)) = Inr () \<longrightarrow>
       (\<exists>p. (CreateTree (REPO_owner (REPO ctx)) (REPO_repo (REPO ctx)) tree, p)
               \<in> set (trace (snd (createGithubVerifiedCommit env ctx)))))"
proof (intro conjI impI)
  assume m: "(CreateTree ow rp tree, p) \<in> set (trace (snd (run env)))"
  then have "trace (snd (run env)) \<noteq> []" by auto
  with run_unprepared obtain inp r where
    h: "getInputs env = Inr inp" "identifyRepository env = Inr r"
    by blast
  from run_facts [OF h, of "fst (run env)" "snd (run env)" _ _ ow rp tree p ctx0] m
  show "snd (fst (getTree env ctx0 (TASK_localCommit (snd (run env))))) = Inr tree"
    by simp
next
  define ctx1 where "ctx1 = snd (getTree env ctx (TASK_localCommit ctx))"
  assume "snd (fst (getTree env ctx (TASK_localCommit ctx))) = Inr tree
       \<and> fst (createGithubBlobs env (snd (getTree env ctx (TASK_localCommit ctx)))
                (TASK_localCommit ctx)) = Inr ()"
  then have g: "snd (fst (getTree env ctx (TASK_localCommit ctx))) = Inr tree"
    and "fst (createGithubBlobs env ctx1 (TASK_localCommit ctx)) = Inr ()"
    by (simp_all add: ctx1_def)
  then obtain ctx2 where b: "createGithubBlobs env ctx1 (TASK_localCommit ctx) = (Inr (), ctx2)"
    by (metis prod.collapse)
  have l1: "TASK_localCommit ctx1 = TASK_localCommit ctx" "REPO ctx1 = REPO ctx"
    by (simp_all add: ctx1_def)
  from createGithubBlobs_shape [OF b] have R: "REPO ctx2 = REPO ctx"
    using l1 by (auto simp: extends_def)
  obtain r ctx' where V: "createGithubVerifiedCommit env ctx = (r, ctx')"
    by (cases "createGithubVerifiedCommit env ctx")
  have "createGithubVerifiedCommit env ctx
          = (case createGithubTreeAndCommit env ctx2 tree (INPUTS_commitMessage (INPUTS ctx2)) of
               (Inl e, ctx3) \<Rightarrow> (Inl e, ctx3)
             | (Inr u, ctx3) \<Rightarrow> updateGithubRef env ctx3)"
    using g b unfolding ctx1_def
    by (simp add: createGithubVerifiedCommit_unfold)
  with V have "(case createGithubTreeAndCommit env ctx2 tree (INPUTS_commitMessage (INPUTS ctx2)) of
               (Inl e, ctx3) \<Rightarrow> (Inl e, ctx3)
             | (Inr u, ctx3) \<Rightarrow> updateGithubRef env ctx3) = (r, ctx')"
    by simp
  from tree_commit_update [OF this] obtain rest where
    rest: "extends ctx2 ctx' rest" "treeStage ctx2 tree rest r ctx'"
    by blast
  from rest(2) obtain p where "(CreateTree (REPO_owner (REPO ctx2)) (REPO_repo (REPO ctx2)) tree, p) \<in> set rest"
    by (auto simp: treeStage_def)
  with rest(1) R have "(CreateTree (REPO_owner (REPO ctx)) (REPO_repo (REPO ctx)) tree, p) \<in> set (trace ctx')"
    by (simp add: extends_def)
  with V show "\<exists>p. (CreateTree (REPO_owner (REPO ctx)) (REPO_repo (REPO ctx)) tree, p)
               \<in> set (trace (snd (createGithubVerifiedCommit env ctx)))"
    by (intro exI [of _ p]) simp
qed

theorem tree_creation_witness:
  "(CreateTree (Some ''alvarezfr'') (Some ''action-verified-commit'') [entry_x], (4, Inr ''t7''))
     \<in> set (trace (snd (run env_no_upload)))
   \<and> blobPromises (trace (snd (run env_no_upload))) = []
   \<and> snd (fst (getTree env_no_upload ctx_local_commit
                 (TASK_localCommit (snd (run env_no_upload))))) = Inr [entry_x]
   \<and> fst (createGithubBlobs env_no_upload
            (snd (getTree env_no_upload ctx_local_commit (TASK_localCommit ctx_local_commit)))
            (TASK_localCommit ctx_local_commit)) = Inr ()
   \<and> (\<exists>p. (CreateTree (Some ''alvarezfr'') (Some ''action-verified-commit'') [entry_x], p)
             \<in> set (trace (snd (createGithubVerifiedCommit env_no_upload ctx_local_commit))))"
proof -
  have m: "(CreateTree (Some ''alvarezfr'') (Some ''action-verified-commit'') [entry_x],
            (4, Inr ''t7'')) \<in> set (trace (snd (run env_no_upload)))"
    and b: "blobPromises (trace (snd (run env_no_upload))) = []"
    by (simp_all add: run_env_no_upload(2))
  have g: "snd (fst (getTree env_no_upload ctx_local_commit (TASK_localCommit ctx_local_commit)))
             = Inr [entry_x]"
    by (simp add: run_defs env_no_upload_def env_scenario_def entry_x_def ctx_local_commit_def)
  have u: "fst (createGithubBlobs env_no_upload
            (snd (getTree env_no_upload ctx_local_commit (TASK_localCommit ctx_local_commit)))
            (TASK_localCommit ctx_local_commit)) = Inr ()"
    by (simp add: run_defs env_no_upload_def env_scenario_def ctx_local_commit_def)
  have R: "REPO_owner (REPO ctx_local_commit) = Some ''alvarezfr''"
    "REPO_repo (REPO ctx_local_commit) = Some ''action-verified-commit''"
    by (simp_all add: ctx_local_commit_def repository_scenario_def)
  note t = tree_creation_receives_full_snapshot
             [where env = env_no_upload and ow = "Some ''alvarezfr''"
                and rp = "Some ''action-verified-commit''" and tree = "[entry_x]"
                and p = "(4, Inr ''t7'')" and ?ctx0.0 = ctx_local_commit
                and ctx = ctx_local_commit]
  from t m have "snd (fst (getTree env_no_upload ctx_local_commit
                 (TASK_localCommit (snd (run env_no_upload))))) = Inr [entry_x]"
    by blast
  moreover from t g u R
  have "\<exists>p. (CreateTree (Some ''alvarezfr'') (Some ''action-verified-commit'') [entry_x], p)
             \<in> set (trace (snd (createGithubVerifiedCommit env_no_upload ctx_local_commit)))"
    by simp
  ultimately show ?thesis using m b u by blast
qed

subsection \<open>C3: no tree or commit after a failed upload\<close>



subsection \<open>C4: the remote commit state and the parent of the new commit\<close>

text \<open>
  C4 (amended). In every run that identifies the repository, the remote commit state is
  seeded with the commit of the local \<open>HEAD\<close>, as \<open>git rev-parse HEAD\<close> gives it, and
  the remote is not asked for the tip of the branch. The state is overwritten at most
  once: exactly when the commit creation is fulfilled, with the identifier of the new
  commit; until then it holds the seed. Every commit creation has exactly one parent,
  the seed, which is the value of the state before the commit was created. Every update
  of the reference comes after the overwrite and targets the new value, for the target
  branch, forced.
\<close>

theorem remote_commit_state_parent_linkage:
  "getInputs env = Inr inp \<and> identifyRepository env = Inr r \<longrightarrow>
     git_revparse env [''HEAD''] = Inr (REPO_sha r)
     \<and> overwrites (snd (run env)) \<le> 1
     \<and> (overwrites (snd (run env)) = 0 \<longrightarrow> TASK_lastCommitSha (snd (run env)) = REPO_sha r)
     \<and> (overwrites (snd (run env)) = 1 \<longrightarrow>
          (\<exists>ow rp m ps t tm.
             (CreateCommit ow rp m ps t, (tm, Inr (TASK_lastCommitSha (snd (run env)))))
               \<in> set (trace (snd (run env)))))
     \<and> ((CreateCommit ow rp m ps ts, p) \<in> set (trace (snd (run env))) \<longrightarrow>
          ps = [REPO_sha r]
          \<and> (rejected p \<longrightarrow> overwrites (snd (run env)) = 0)
          \<and> (\<forall>v. snd p = Inr v \<longrightarrow>
                TASK_lastCommitSha (snd (run env)) = v \<and> overwrites (snd (run env)) = 1))
     \<and> ((UpdateRef ow' rp' ref s f, q) \<in> set (trace (snd (run env))) \<longrightarrow>
          ref = ''heads/'' @ target_branch inp r \<and> s = TASK_lastCommitSha (snd (run env)) \<and> f
          \<and> overwrites (snd (run env)) = 1)"
proof
  assume "getInputs env = Inr inp \<and> identifyRepository env = Inr r"
  then have h: "getInputs env = Inr inp" "identifyRepository env = Inr r" by simp_all
  have seed: "git_revparse env [''HEAD''] = Inr (REPO_sha r)"
    using h(2) by (auto simp: identifyRepository_def split: sum.splits)
  note rf = run_facts [OF h prod.collapse [symmetric]]
  have c: "(CreateCommit ow rp m ps ts, p) \<in> set (trace (snd (run env))) \<longrightarrow>
          ps = [REPO_sha r]
          \<and> (rejected p \<longrightarrow> overwrites (snd (run env)) = 0)
          \<and> (\<forall>v. snd p = Inr v \<longrightarrow>
                TASK_lastCommitSha (snd (run env)) = v \<and> overwrites (snd (run env)) = 1)"
    by (rule rf [THEN conjunct2, THEN conjunct2, THEN conjunct2, THEN conjunct1])
  have u: "(UpdateRef ow' rp' ref s f, q) \<in> set (trace (snd (run env))) \<longrightarrow>
          ref = ''heads/'' @ target_branch inp r \<and> s = TASK_lastCommitSha (snd (run env)) \<and> f
          \<and> overwrites (snd (run env)) = 1"
    by (rule rf [THEN conjunct2, THEN conjunct2, THEN conjunct2, THEN conjunct2, THEN conjunct1])
  have d: "(TASK_lastCommitSha (snd (run env)) = REPO_sha r \<and> overwrites (snd (run env)) = 0)
         \<or> (overwrites (snd (run env)) = 1
             \<and> (\<exists>ow rp m ps t tm.
                   (CreateCommit ow rp m ps t, (tm, Inr (TASK_lastCommitSha (snd (run env)))))
                     \<in> set (trace (snd (run env)))))"
    by (rule rf [THEN conjunct2, THEN conjunct2, THEN conjunct2, THEN conjunct2, THEN conjunct2,
                 THEN conjunct1])
  from d have "overwrites (snd (run env)) \<le> 1"
    "overwrites (snd (run env)) = 0 \<longrightarrow> TASK_lastCommitSha (snd (run env)) = REPO_sha r"
    "overwrites (snd (run env)) = 1 \<longrightarrow>
          (\<exists>ow rp m ps t tm.
             (CreateCommit ow rp m ps t, (tm, Inr (TASK_lastCommitSha (snd (run env)))))
               \<in> set (trace (snd (run env))))"
    by auto
  with seed c u show "git_revparse env [''HEAD''] = Inr (REPO_sha r)
     \<and> overwrites (snd (run env)) \<le> 1
     \<and> (overwrites (snd (run env)) = 0 \<longrightarrow> TASK_lastCommitSha (snd (run env)) = REPO_sha r)
     \<and> (overwrites (snd (run env)) = 1 \<longrightarrow>
          (\<exists>ow rp m ps t tm.
             (CreateCommit ow rp m ps t, (tm, Inr (TASK_lastCommitSha (snd (run env)))))
               \<in> set (trace (snd (run env)))))
     \<and> ((CreateCommit ow rp m ps ts, p) \<in> set (trace (snd (run env))) \<longrightarrow>
          ps = [REPO_sha r]
          \<and> (rejected p \<longrightarrow> overwrites (snd (run env)) = 0)
          \<and> (\<forall>v. snd p = Inr v \<longrightarrow>
                TASK_lastCommitSha (snd (run env)) = v \<and> overwrites (snd (run env)) = 1))
     \<and> ((UpdateRef ow' rp' ref s f, q) \<in> set (trace (snd (run env))) \<longrightarrow>
          ref = ''heads/'' @ target_branch inp r \<and> s = TASK_lastCommitSha (snd (run env)) \<and> f
          \<and> overwrites (snd (run env)) = 1)"
    by (intro conjI)
qed

theorem remote_commit_state_witness:
  "getInputs env_scenario = Inr inputs_scenario
   \<and> identifyRepository env_scenario = Inr repository_scenario
   \<and> (CreateCommit (Some ''alvarezfr'') (Some ''action-verified-commit'') ''Automated commit''
         [''a0''] ''t7'', (7, Inr ''c10'')) \<in> set (trace (snd (run env_scenario)))
   \<and> (UpdateRef (Some ''alvarezfr'') (Some ''action-verified-commit'') ''heads/main'' ''c10''
         True, (8, Inr ''b2'')) \<in> set (trace (snd (run env_scenario)))
   \<and> git_revparse env_scenario [''HEAD''] = Inr ''a0''
   \<and> REPO_sha repository_scenario = ''a0''
   \<and> overwrites (snd (run env_scenario)) = 1
   \<and> TASK_lastCommitSha (snd (run env_scenario)) = ''c10''"
proof -
  have m: "(CreateCommit (Some ''alvarezfr'') (Some ''action-verified-commit'')
              ''Automated commit'' [''a0''] ''t7'', (7, Inr ''c10''))
             \<in> set (trace (snd (run env_scenario)))"
    "(UpdateRef (Some ''alvarezfr'') (Some ''action-verified-commit'') ''heads/main'' ''c10''
         True, (8, Inr ''b2'')) \<in> set (trace (snd (run env_scenario)))"
    by (simp_all add: run_env_scenario(2))
  have s: "REPO_sha repository_scenario = ''a0''" by (simp add: repository_scenario_def)
  note t = mp [OF remote_commit_state_parent_linkage
         [where env = env_scenario and inp = inputs_scenario and r = repository_scenario
            and ow = "Some ''alvarezfr''" and rp = "Some ''action-verified-commit''"
            and m = "''Automated commit''" and ps = "[''a0'']" and ts = "''t7''"
            and p = "(7, Inr ''c10'')"
            and ow' = "Some ''alvarezfr''" and rp' = "Some ''action-verified-commit''"
            and ref = "''heads/main''" and s = "''c10''" and f = True and q = "(8, Inr ''b2'')"]
         conjI [OF scenario_prelude(1) scenario_prelude(2)]]
  have g: "git_revparse env_scenario [''HEAD''] = Inr ''a0''"
    using t [THEN conjunct1] s by simp
  from t [THEN conjunct2, THEN conjunct2, THEN conjunct2, THEN conjunct2, THEN conjunct1] m(1)
  have "\<forall>v. snd (7 :: nat, Inr ''c10'' :: thrown + string) = Inr v \<longrightarrow>
          TASK_lastCommitSha (snd (run env_scenario)) = v \<and> overwrites (snd (run env_scenario)) = 1"
    by blast
  then have "TASK_lastCommitSha (snd (run env_scenario)) = ''c10''"
    "overwrites (snd (run env_scenario)) = 1"
    by simp_all
  with scenario_prelude(1,2) m s g show ?thesis by blast
qed

text \<open>
  C4 as stated fails: in the run that commits to the branch \<open>bot\<close>, which exists in the
  remote repository at commit \<open>c1\<close>, the state is seeded with \<open>a0\<close>, the commit of the
  local \<open>HEAD\<close> (the context when the run checks the working tree holds it), and the
  new commit gets \<open>a0\<close> for its parent.
\<close>

theorem remote_commit_state_seed_counterexample:
  "remote_heads env_bot ''bot'' = Some ''c1''
   \<and> TASK_branch (snd (run env_bot)) = ''bot''
   \<and> git_revparse env_bot [''HEAD''] = Inr ''a0''
   \<and> TASK_lastCommitSha
         (prepared env_bot (inputs_scenario\<lparr>INPUTS_branch := ''bot''\<rparr>) repository_scenario)
       = ''a0''
   \<and> fst (trace (snd (run env_bot)) ! 8)
       = CreateCommit (Some ''alvarezfr'') (Some ''action-verified-commit'') ''Automated commit''
           [''a0''] ''t7''"
  by (simp add: run_defs env_bot_def env_scenario_def repository_scenario_def)

subsection \<open>C5: a clean working tree\<close>

text \<open>
  C5. When the working tree is clean, the run makes no call at all: no blob, tree, commit
  or reference is created or updated. When moreover the inputs are supplied and the
  repository is identified, so that the run gets to look at the working tree, it ends
  successfully there.
\<close>

theorem clean_tree_is_a_no_op:
  "git_status_isClean env = Inr True \<Longrightarrow>
     trace (snd (run env)) = []
     \<and> (getInputs env = Inr inp \<and> identifyRepository env = Inr r \<longrightarrow> fst (run env) = Inr ())"
proof -
  assume clean: "git_status_isClean env = Inr True"
  have "trace (snd (run env)) = []"
  proof (cases "getInputs env")
    case (Inl e)
    then show ?thesis by (simp add: run_stopped(1) CONTEXT_def)
  next
    case inp: (Inr inp')
    show ?thesis
    proof (cases "identifyRepository env")
      case (Inl e)
      with inp show ?thesis by (simp add: run_stopped(2))
    next
      case (Inr r')
      with inp clean show ?thesis by (simp add: run_stopped(4))
    qed
  qed
  moreover have "getInputs env = Inr inp \<and> identifyRepository env = Inr r \<longrightarrow> fst (run env) = Inr ()"
    using clean by (simp add: run_stopped(4))
  ultimately show ?thesis by simp
qed

theorem clean_tree_witness:
  "git_status_isClean env_clean = Inr True
   \<and> run env_clean = (Inr (), prepared env_clean inputs_scenario repository_scenario)
   \<and> trace (snd (run env_clean)) = []"
proof -
  have c: "git_status_isClean env_clean = Inr True"
    by (simp add: env_clean_def)
  from clean_tree_is_a_no_op [OF c] scenario_prelude(3,4)
  have "trace (snd (run env_clean)) = []" "fst (run env_clean) = Inr ()" by auto
  moreover have "snd (run env_clean) = prepared env_clean inputs_scenario repository_scenario"
    using run_stopped(4) [OF scenario_prelude(3,4) c] by simp
  ultimately show ?thesis using c by (metis prod.collapse)
qed

subsection \<open>C6: the Branch Ensurer swallows an existing reference\<close>




subsection \<open>C7: when the Branch Ensurer runs\<close>

text \<open>
  C7. The Branch Ensurer is invoked in a run when, and only when, the run gets past its
  check of the working tree (the inputs are supplied, the repository is identified and
  the working tree is not clean) and the target branch, which is the branch input or
  the checked-out branch when the input is empty, differs from the checked-out branch.
  Its call is then the first call of the run, before the local commit, every listing,
  every file read and every other call of the hosting API, and it is the only creation
  of a reference. When the two branches are equal, no reference is created.
\<close>

theorem branch_ensurer_first_iff_branch_differs:
  "target_branch inp r = (if INPUTS_branch inp \<noteq> [] then INPUTS_branch inp else REPO_branch r)
   \<and> (list_ex (\<lambda>cp. isCreateRef (fst cp)) (trace (snd (run env))) \<longrightarrow>
        (\<exists>inp r. getInputs env = Inr inp \<and> identifyRepository env = Inr r
           \<and> git_status_isClean env = Inr False \<and> target_branch inp r \<noteq> REPO_branch r))
   \<and> (getInputs env = Inr inp \<and> identifyRepository env = Inr r
        \<and> git_status_isClean env = Inr False \<and> target_branch inp r \<noteq> REPO_branch r \<longrightarrow>
        (\<exists>p rest. trace (snd (run env))
             = (CreateRef (REPO_owner r) (REPO_repo r) (REPO_sha r)
                  (''refs/heads/'' @ target_branch inp r), p) # rest
           \<and> list_all (\<lambda>cp. \<not> isCreateRef (fst cp)) rest))
   \<and> (getInputs env = Inr inp \<and> identifyRepository env = Inr r
        \<and> target_branch inp r = REPO_branch r \<longrightarrow>
        list_all (\<lambda>cp. \<not> isCreateRef (fst cp)) (trace (snd (run env))))"
proof -
  have working: "\<exists>rest. trace (snd (run env))
             = (if target_branch inp' r' \<noteq> REPO_branch r'
                then [(CreateRef (REPO_owner r') (REPO_repo r') (REPO_sha r')
                         (''refs/heads/'' @ target_branch inp' r'),
                       octokit env 0 (CreateRef (REPO_owner r') (REPO_repo r') (REPO_sha r')
                         (''refs/heads/'' @ target_branch inp' r')))]
                else []) @ rest
           \<and> list_all (\<lambda>cp. \<not> isCreateRef (fst cp)) rest"
    if h: "getInputs env = Inr inp'" "identifyRepository env = Inr r'"
      "git_status_isClean env = Inr False" for inp' r'
  proof -
    obtain res ctx' where run: "run env = (res, ctx')" by (cases "run env")
    from run_working [OF h run] show ?thesis
    proof (elim disjE exE conjE)
      fix e
      assume "target_branch inp' r' \<noteq> REPO_branch r'"
        "ctx' = (prepared env inp' r')
           \<lparr>trace := if target_branch inp' r' \<noteq> REPO_branch r'
                     then [(CreateRef (REPO_owner r') (REPO_repo r') (REPO_sha r')
                              (''refs/heads/'' @ target_branch inp' r'),
                            octokit env 0 (CreateRef (REPO_owner r') (REPO_repo r') (REPO_sha r')
                              (''refs/heads/'' @ target_branch inp' r')))]
                     else []\<rparr>"
      then show ?thesis using run by (intro exI [of _ "[]"]) simp
    next
      fix e
      assume "ctx' = (prepared env inp' r')
           \<lparr>trace := (if target_branch inp' r' \<noteq> REPO_branch r'
                     then [(CreateRef (REPO_owner r') (REPO_repo r') (REPO_sha r')
                              (''refs/heads/'' @ target_branch inp' r'),
                            octokit env 0 (CreateRef (REPO_owner r') (REPO_repo r') (REPO_sha r')
                              (''refs/heads/'' @ target_branch inp' r')))]
                     else [])
                    @ [(GitAddCommit ''./*'' ''local commit'',
                        git_add_commit env ''./*'' ''local commit'')]\<rparr>"
      then show ?thesis
        using run
        by (intro exI [of _ "[(GitAddCommit ''./*'' ''local commit'',
                               git_add_commit env ''./*'' ''local commit'')]"]) simp
    next
      fix commit
      assume "createGithubVerifiedCommit env
                 ((prepared env inp' r')
                    \<lparr>TASK_localCommit := replace ''HEAD '' [] commit,
                     trace := (if target_branch inp' r' \<noteq> REPO_branch r'
                     then [(CreateRef (REPO_owner r') (REPO_repo r') (REPO_sha r')
                              (''refs/heads/'' @ target_branch inp' r'),
                            octokit env 0 (CreateRef (REPO_owner r') (REPO_repo r') (REPO_sha r')
                              (''refs/heads/'' @ target_branch inp' r')))]
                     else [])
                    @ [(GitAddCommit ''./*'' ''local commit'',
                        git_add_commit env ''./*'' ''local commit'')]\<rparr>)
               = (res, ctx')"
      from pipeline_calls [OF this] obtain new where
        "trace ctx' = ((if target_branch inp' r' \<noteq> REPO_branch r'
                     then [(CreateRef (REPO_owner r') (REPO_repo r') (REPO_sha r')
                              (''refs/heads/'' @ target_branch inp' r'),
                            octokit env 0 (CreateRef (REPO_owner r') (REPO_repo r') (REPO_sha r')
                              (''refs/heads/'' @ target_branch inp' r')))]
                     else [])
                    @ [(GitAddCommit ''./*'' ''local commit'',
                        git_add_commit env ''./*'' ''local commit'')]) @ new"
        "list_all (\<lambda>cp. \<not> isCreateRef (fst cp)) new"
        by (fastforce simp: extends_def list_all_iff)
      then show ?thesis
        using run
        by (intro exI [of _ "(GitAddCommit ''./*'' ''local commit'',
                              git_add_commit env ''./*'' ''local commit'') # new"])
           simp
    qed
  qed
  have none: "trace (snd (run env)) = []"
    if "\<not> (\<exists>inp r. getInputs env = Inr inp \<and> identifyRepository env = Inr r
             \<and> git_status_isClean env = Inr False)"
  proof (cases "getInputs env")
    case (Inl e)
    then show ?thesis by (simp add: run_stopped(1) CONTEXT_def)
  next
    case inp: (Inr inp')
    show ?thesis
    proof (cases "identifyRepository env")
      case (Inl e)
      with inp show ?thesis by (simp add: run_stopped(2))
    next
      case r: (Inr r')
      show ?thesis
      proof (cases "git_status_isClean env")
        case (Inl e)
        with inp r show ?thesis by (simp add: run_stopped(3))
      next
        case (Inr isClean)
        with that inp r have "git_status_isClean env = Inr True" by (cases isClean) auto
        with inp r show ?thesis by (simp add: run_stopped(4))
      qed
    qed
  qed
  have A: "list_ex (\<lambda>cp. isCreateRef (fst cp)) (trace (snd (run env))) \<longrightarrow>
        (\<exists>inp r. getInputs env = Inr inp \<and> identifyRepository env = Inr r
           \<and> git_status_isClean env = Inr False \<and> target_branch inp r \<noteq> REPO_branch r)"
  proof
    assume ex: "list_ex (\<lambda>cp. isCreateRef (fst cp)) (trace (snd (run env)))"
    then have "trace (snd (run env)) \<noteq> []" by (auto simp: list_ex_iff)
    with none obtain inp' r' where h: "getInputs env = Inr inp'" "identifyRepository env = Inr r'"
      "git_status_isClean env = Inr False"
      by blast
    from working [OF h] ex have "target_branch inp' r' \<noteq> REPO_branch r'"
      by (auto simp: list_ex_iff list_all_iff split: if_splits)
    with h show "\<exists>inp r. getInputs env = Inr inp \<and> identifyRepository env = Inr r
           \<and> git_status_isClean env = Inr False \<and> target_branch inp r \<noteq> REPO_branch r"
      by blast
  qed
  have B: "getInputs env = Inr inp \<and> identifyRepository env = Inr r
        \<and> git_status_isClean env = Inr False \<and> target_branch inp r \<noteq> REPO_branch r \<longrightarrow>
        (\<exists>p rest. trace (snd (run env))
             = (CreateRef (REPO_owner r) (REPO_repo r) (REPO_sha r)
                  (''refs/heads/'' @ target_branch inp r), p) # rest
           \<and> list_all (\<lambda>cp. \<not> isCreateRef (fst cp)) rest)"
    using working [of inp r] by auto
  have C: "getInputs env = Inr inp \<and> identifyRepository env = Inr r
        \<and> target_branch inp r = REPO_branch r \<longrightarrow>
        list_all (\<lambda>cp. \<not> isCreateRef (fst cp)) (trace (snd (run env)))"
    using A by (auto simp: list_ex_iff list_all_iff)
  show ?thesis using A B C by (simp add: target_branch_def)
qed

theorem branch_ensurer_witness:
  "getInputs env_bot = Inr (inputs_scenario\<lparr>INPUTS_branch := ''bot''\<rparr>)
   \<and> identifyRepository env_bot = Inr repository_scenario
   \<and> git_status_isClean env_bot = Inr False
   \<and> target_branch (inputs_scenario\<lparr>INPUTS_branch := ''bot''\<rparr>) repository_scenario = ''bot''
   \<and> REPO_branch repository_scenario = ''main''
   \<and> fst (hd (trace (snd (run env_bot))))
       = CreateRef (Some ''alvarezfr'') (Some ''action-verified-commit'') ''a0'' ''refs/heads/bot''
   \<and> list_all (\<lambda>cp. \<not> isCreateRef (fst cp)) (tl (trace (snd (run env_bot))))
   \<and> list_ex (\<lambda>cp. isCreateRef (fst cp)) (trace (snd (run env_bot)))
   \<and> target_branch inputs_scenario repository_scenario = REPO_branch repository_scenario
   \<and> list_all (\<lambda>cp. \<not> isCreateRef (fst cp)) (trace (snd (run env_scenario)))"
proof -
  have s: "git_status_isClean env_bot = Inr False"
    by (simp add: env_bot_def env_scenario_def)
  have t: "target_branch (inputs_scenario\<lparr>INPUTS_branch := ''bot''\<rparr>) repository_scenario = ''bot''"
    "REPO_branch repository_scenario = ''main''"
    "target_branch inputs_scenario repository_scenario = REPO_branch repository_scenario"
    "REPO_owner repository_scenario = Some ''alvarezfr''"
    "REPO_repo repository_scenario = Some ''action-verified-commit''"
    "REPO_sha repository_scenario = ''a0''"
    by (simp_all add: target_branch_def inputs_scenario_def repository_scenario_def)
  from branch_ensurer_first_iff_branch_differs
         [of "inputs_scenario\<lparr>INPUTS_branch := ''bot''\<rparr>" repository_scenario env_bot]
       scenario_prelude(5,6) s t
  obtain p rest where "trace (snd (run env_bot))
       = (CreateRef (Some ''alvarezfr'') (Some ''action-verified-commit'') ''a0''
            (''refs/heads/'' @ ''bot''), p) # rest"
    "list_all (\<lambda>cp. \<not> isCreateRef (fst cp)) rest"
    by auto
  moreover from branch_ensurer_first_iff_branch_differs
         [of inputs_scenario repository_scenario env_scenario] scenario_prelude(1,2) t(3)
  have "list_all (\<lambda>cp. \<not> isCreateRef (fst cp)) (trace (snd (run env_scenario)))"
    by blast
  ultimately show ?thesis using scenario_prelude(5,6) s t by simp
qed

subsection \<open>C8: the owner and the repository\<close>




subsection \<open>C9: a reference that does not resolve\<close>

text \<open>
  C9. When the listing of a commit reference is rejected (the reference does not resolve,
  as the parent of the first commit of a repository), the Tree Reader rejects with the same
  value; it never fulfils with an empty snapshot, so a snapshot and a failure are never
  confused. At the caller, a parent that does not resolve makes \<open>createGithubBlobs\<close>
  fail, with that value when the listing of the commit itself is fulfilled, and no blob is
  created.
\<close>

theorem getTree_signals_resolution_failure:
  "(git_raw env [''ls-tree'', ''-r'', ''--full-tree'', ref] = (t, Inl e) \<longrightarrow>
      fst (getTree env ctx ref) = (t, Inl e))
   \<and> snd (fst (getTree env ctx ref)) \<noteq> Inr []
   \<and> (git_raw env [''ls-tree'', ''-r'', ''--full-tree'', commitSha @ ''~1''] = (t, Inl e) \<longrightarrow>
        (\<exists>e'. fst (createGithubBlobs env ctx commitSha) = Inl e'
           \<and> (\<not> rejected (git_raw env [''ls-tree'', ''-r'', ''--full-tree'', commitSha])
                \<longrightarrow> e' = e)
           \<and> blobPromises (trace (snd (createGithubBlobs env ctx commitSha)))
               = blobPromises (trace ctx)))"
proof (intro conjI impI)
  assume "git_raw env [''ls-tree'', ''-r'', ''--full-tree'', ref] = (t, Inl e)"
  then show "fst (getTree env ctx ref) = (t, Inl e)"
    by (simp add: getTree_promise)
next
  show "snd (fst (getTree env ctx ref)) \<noteq> Inr []"
    by (simp add: getTree_promise parseTree_not_Nil split: sum.splits)
next
  assume g: "git_raw env [''ls-tree'', ''-r'', ''--full-tree'', commitSha @ ''~1''] = (t, Inl e)"
  obtain t2 r2 where g2: "git_raw env [''ls-tree'', ''-r'', ''--full-tree'', commitSha] = (t2, r2)"
    by (cases "git_raw env [''ls-tree'', ''-r'', ''--full-tree'', commitSha]")
  show "\<exists>e'. fst (createGithubBlobs env ctx commitSha) = Inl e'
           \<and> (\<not> rejected (git_raw env [''ls-tree'', ''-r'', ''--full-tree'', commitSha])
                \<longrightarrow> e' = e)
           \<and> blobPromises (trace (snd (createGithubBlobs env ctx commitSha)))
               = blobPromises (trace ctx)"
    using g g2
    by (cases r2)
       (auto simp: createGithubBlobs_def getTree_def Let_def Promise_all_def rejected_def)
qed

theorem getTree_first_commit_witness:
  "git_raw env_first_commit [''ls-tree'', ''-r'', ''--full-tree'', ''c9'' @ ''~1'']
     = (1, Inl (Error ''fatal: Not a valid object name c9~1''))
   \<and> fst (getTree env_first_commit CONTEXT (''c9'' @ ''~1''))
       = (1, Inl (Error ''fatal: Not a valid object name c9~1''))
   \<and> fst (createGithubBlobs env_first_commit CONTEXT ''c9'')
       = Inl (Error ''fatal: Not a valid object name c9~1'')"
proof -
  have h: "git_raw env_first_commit [''ls-tree'', ''-r'', ''--full-tree'', ''c9'' @ ''~1'']
             = (1, Inl (Error ''fatal: Not a valid object name c9~1''))"
    by (simp add: env_first_commit_def)
  have n: "\<not> rejected (git_raw env_first_commit [''ls-tree'', ''-r'', ''--full-tree'', ''c9''])"
    by (simp add: env_first_commit_def env_scenario_def rejected_def)
  from getTree_signals_resolution_failure
         [of env_first_commit "''c9'' @ ''~1''" 1 "Error ''fatal: Not a valid object name c9~1''"
             CONTEXT "''c9''"] n h
  show ?thesis by auto
qed

subsection \<open>C10: the Tree Reader returns at least one entry\<close>

text \<open>
  C10. Whatever the listing, the Tree Reader returns at least one entry. When the listing
  is empty (or only white space), the snapshot is one entry with the empty mode and no
  type, content identifier or path.
\<close>

theorem getTree_returns_at_least_one_entry:
  "snd (git_raw env [''ls-tree'', ''-r'', ''--full-tree'', commitSha]) = Inr output \<Longrightarrow>
     (\<exists>tree. snd (fst (getTree env ctx commitSha)) = Inr tree \<and> tree \<noteq> []
        \<and> (trimEnd output = [] \<longrightarrow>
              tree = [\<lparr>mode = Some [], type = None, sha = None, path = None\<rparr>]))"
  by (simp add: getTree_def Let_def parseTree_not_Nil parseTree_empty)

theorem getTree_empty_listing_witness:
  "snd (git_raw env_empty_listing [''ls-tree'', ''-r'', ''--full-tree'', ''c9'']) = Inr []
   \<and> snd (fst (getTree env_empty_listing CONTEXT ''c9''))
       = Inr [\<lparr>mode = Some [], type = None, sha = None, path = None\<rparr>]"
proof -
  have h: "snd (git_raw env_empty_listing [''ls-tree'', ''-r'', ''--full-tree'', ''c9'']) = Inr []"
    by (simp add: env_empty_listing_def)
  have "trimEnd [] = []" by (simp add: trimEnd_def)
  with getTree_returns_at_least_one_entry [OF h, of CONTEXT] h show ?thesis by auto
qed

end
